theory Spec2Isabelle
  imports Main "HOL-Library.FSet" "HOL-Library.Word"
begin

section \<open>Python values and containers used by both source files\<close>

text \<open>
  The two source files are Python 2. Exceptions are values: a stateful method returns
  the object after the call together with what the call did (\<open>Returned v\<close> or
  \<open>Raised e\<close>), because a Python object keeps the attribute assignments made before an
  exception is raised.
\<close>

datatype py_error =
  IndexError | ValueError | KeyError | TypeError | AttributeError | UnicodeDecodeError
  | PlainException

datatype 'a outcome = Returned 'a | Raised py_error

text \<open>\<open>xs[i]\<close> on a Python list: a negative index counts from the end, an index out of
  range raises IndexError.\<close>

definition getitem :: "'a list \<Rightarrow> int \<Rightarrow> py_error + 'a" where
  "getitem xs i =
     (if 0 \<le> i \<and> i < int (length xs) then Inr (xs ! nat i)
      else if i < 0 \<and> - int (length xs) \<le> i then Inr (xs ! nat (int (length xs) + i))
      else Inl IndexError)"

text \<open>\<open>xs.index(x)\<close>: the position of the first element equal to \<open>x\<close>, ValueError when
  there is none.\<close>

fun index :: "'a list \<Rightarrow> 'a \<Rightarrow> py_error + nat" where
  "index [] x = Inl ValueError"
| "index (y # ys) x =
     (if y = x then Inr 0
      else (case index ys x of Inl e \<Rightarrow> Inl e | Inr i \<Rightarrow> Inr (Suc i)))"

text \<open>
  \<open>collections.OrderedDict\<close>: the items in insertion order, every key once. Storing under
  a key that is present replaces the value and keeps the key's position.
\<close>

type_synonym ('k, 'v) ordered_dict = "('k \<times> 'v) list"

fun setitem :: "('k, 'v) ordered_dict \<Rightarrow> 'k \<Rightarrow> 'v \<Rightarrow> ('k, 'v) ordered_dict" where
  "setitem [] k v = [(k, v)]"
| "setitem ((k', v') # d) k v =
     (if k' = k then (k, v) # d else (k', v') # setitem d k v)"

definition OrderedDict :: "('k \<times> 'v) list \<Rightarrow> ('k, 'v) ordered_dict" where
  "OrderedDict pairs = foldl (\<lambda>d (k, v). setitem d k v) [] pairs"

definition keys :: "('k, 'v) ordered_dict \<Rightarrow> 'k list" where
  "keys d = map fst d"

definition len :: "('k, 'v) ordered_dict \<Rightarrow> nat" where
  "len d = length d"

text \<open>\<open>d.get(k)\<close> and \<open>k in d\<close> where \<open>k\<close> may be Python's None: the keys of the
  dictionaries below are strings, so None is never a key.\<close>

definition dict_get :: "('k, 'v) ordered_dict \<Rightarrow> 'k option \<Rightarrow> 'v option" where
  "dict_get d k = (case k of None \<Rightarrow> None | Some k' \<Rightarrow> map_of d k')"

definition contains :: "('k, 'v) ordered_dict \<Rightarrow> 'k option \<Rightarrow> bool" where
  "contains d k = (case k of None \<Rightarrow> False | Some k' \<Rightarrow> k' \<in> set (keys d))"

section \<open>randomize\_module.py\<close>

record location =
  url :: string
  name :: string

record fragment =
  content :: string

text \<open>
  A child block, as far as the module looks at it: its location, the fragment its
  \<open>render('student_view', context)\<close> returns and its icon class. The same type stands
  for the child descriptors (\<open>self.descriptor.get_children()\<close>) and for the loaded child
  modules (\<open>self.get_children()\<close>).
\<close>

record xblock =
  location :: location
  render :: fragment
  get_icon_class :: string

text \<open>
  The module object. \<open>choice\<close> and \<open>history\<close> are the user-state fields, \<open>suspended\<close>
  the settings field (a list, or None); \<open>descriptor_children\<close> is what
  \<open>self.descriptor.get_children()\<close> returns, \<open>xml_attributes\<close> is
  \<open>self.descriptor.xml_attributes\<close> (the empty list stands for an empty dictionary and
  for None, both falsy); \<open>seed\<close>, \<open>user_is_staff\<close> and \<open>ajax_url\<close> are attributes of
  \<open>self.system\<close> (\<open>self.runtime\<close> is the same object); \<open>html_id\<close> is
  \<open>self.location.html_id()\<close>.
\<close>

record randomize_module =
  choice :: "string option"
  history :: "string list"
  suspended :: "string list option"
  use_randrange :: bool
  no_repeats :: bool
  child_descriptor :: "xblock option"
  child :: "xblock option"
  descriptor_children :: "xblock list"
  xml_attributes :: "(string \<times> string) list"
  seed :: "int option"
  user_is_staff :: bool
  ajax_url :: string
  html_id :: string

text \<open>\<open>v.lower()\<close> on an ASCII byte string.\<close>

definition lower :: "string \<Rightarrow> string" where
  "lower v =
     map (\<lambda>c. if 65 \<le> (of_char c :: nat) \<and> (of_char c :: nat) \<le> 90
              then char_of ((of_char c :: nat) + 32) else c) v"

definition str_to_bool :: "string \<Rightarrow> bool" where
  "str_to_bool v = (lower v = ''true'')"

text \<open>
  \<open>get_choices(no_repeats, suspended)\<close>. Only the truth value of \<open>no_repeats\<close> is
  looked at, so its default None is \<open>False\<close> here; \<open>suspended\<close> is None or a list, and
  is truthy when it is a non-empty list. A call with no arguments is
  \<open>get_choices self False None\<close>.
\<close>

definition get_choices ::
  "randomize_module \<Rightarrow> bool \<Rightarrow> string list option \<Rightarrow> (string, xblock) ordered_dict" where
  "get_choices self no_repeats' suspended' =
     (let children = descriptor_children self;
          children = (if choice self = None \<and> no_repeats'
                      then filter (\<lambda>c. url (location c) \<notin> set (history self)) children
                      else children);
          children = (case suspended' of
                        Some (s # ss) \<Rightarrow>
                          filter (\<lambda>c. name (location c) \<notin> set (s # ss)) children
                      | _ \<Rightarrow> children)
      in OrderedDict (map (\<lambda>c. (url (location c), c)) children))"

text \<open>
  \<open>get_choice_index(choice, choices)\<close>: \<open>choice or self.choice\<close> falls back to the stored
  choice when the argument is None or the empty string, \<open>choices or ...\<close> falls back to
  all keys when the argument is None or the empty list. \<open>choices.index(None)\<close> raises
  ValueError, as None is no element of a list of strings.
\<close>

definition get_choice_index ::
  "randomize_module \<Rightarrow> string option \<Rightarrow> string list option \<Rightarrow> py_error + nat" where
  "get_choice_index self choice' choices' =
     (let choice'' = (case choice' of Some (c # cs) \<Rightarrow> Some (c # cs) | _ \<Rightarrow> choice self);
          choices'' = (case choices' of Some (k # ks) \<Rightarrow> k # ks
                       | _ \<Rightarrow> keys (get_choices self False None))
      in case choice'' of None \<Rightarrow> Inl ValueError | Some c \<Rightarrow> index choices'' c)"

definition get_child_descriptors :: "randomize_module \<Rightarrow> xblock list" where
  "get_child_descriptors self =
     (case child_descriptor self of None \<Rightarrow> [] | Some d \<Rightarrow> [d])"

text \<open>
  \<open>pick_choice\<close>, in the order of its three \<open>if\<close> statements. The first one resets the
  stored choice; \<open>name not in suspended\<close> raises TypeError when \<open>suspended\<close> is None.
\<close>

definition pick_choice_reset ::
  "randomize_module \<Rightarrow> (string, xblock) ordered_dict \<Rightarrow> (string, xblock) ordered_dict \<Rightarrow>
   string list option \<Rightarrow> py_error + randomize_module" where
  "pick_choice_reset self choices all_choices suspended' =
     (case dict_get all_choices (choice self) of
        None \<Rightarrow> Inr self
      | Some current_child \<Rightarrow>
          if \<not> contains choices (choice self) then
            (case suspended' of
               None \<Rightarrow> Inl TypeError
             | Some names \<Rightarrow>
                 if name (location current_child) \<notin> set names
                 then Inr (self\<lparr>choice := None\<rparr>)
                 else Inr self)
          else Inr self)"

text \<open>
  The second statement picks a choice when none is stored. \<open>random.choice(keys)\<close> is
  \<open>keys[int(random() * len(keys))]\<close>; the draw is the parameter \<open>rnd\<close>, reduced to an
  index of \<open>keys\<close>. \<open>seed % num_choices\<close> is Python's modulo, which for a positive
  divisor is HOL's \<open>mod\<close> on \<open>int\<close>. \<open>self.history[-1]\<close> raises IndexError on an empty
  history, which the method catches.
\<close>

definition pick_choice_select ::
  "nat \<Rightarrow> randomize_module \<Rightarrow> (string, xblock) ordered_dict \<Rightarrow> bool \<Rightarrow> randomize_module" where
  "pick_choice_select rnd self choices use_randrange' =
     (if choice self = None then
        (let num_choices = len choices in
         if num_choices > 0 then
           (let keys' = keys choices;
                choice' = (case seed self of
                             Some s \<Rightarrow>
                               if \<not> use_randrange' then keys' ! nat (s mod int num_choices)
                               else keys' ! (rnd mod num_choices)
                           | None \<Rightarrow> keys' ! (rnd mod num_choices))
            in self\<lparr>choice := Some choice'\<rparr>)
         else
           (case getitem (history self) (- 1) of
              Inr h \<Rightarrow> self\<lparr>choice := Some h\<rparr>
            | Inl e \<Rightarrow> self))
      else self)"

text \<open>
  The third statement loads the child. \<open>self.get_children()\<close> is a method of the base
  class XModule, which is not among the source files: it is the parameter
  \<open>get_children\<close>, applied to the object once \<open>child_descriptor\<close> is set.
\<close>

definition pick_choice_load ::
  "(randomize_module \<Rightarrow> xblock list) \<Rightarrow> randomize_module \<Rightarrow> (string, xblock) ordered_dict \<Rightarrow>
   unit outcome \<times> randomize_module" where
  "pick_choice_load get_children self all_choices =
     (if choice self \<noteq> None then
        (let self1 = self\<lparr>child_descriptor := dict_get all_choices (choice self)\<rparr>;
             children = get_children self1
         in if length children \<noteq> 1 then (Raised PlainException, self1)
            else (Returned (), self1\<lparr>child := Some (hd children)\<rparr>))
      else (Returned (), self\<lparr>child_descriptor := None, child := None\<rparr>))"

definition pick_choice ::
  "(randomize_module \<Rightarrow> xblock list) \<Rightarrow> nat \<Rightarrow> randomize_module \<Rightarrow> bool \<Rightarrow> bool \<Rightarrow>
   string list option \<Rightarrow> unit outcome \<times> randomize_module" where
  "pick_choice get_children rnd self use_randrange' no_repeats' suspended' =
     (let choices = get_choices self no_repeats' suspended';
          all_choices = get_choices self False None
      in case pick_choice_reset self choices all_choices suspended' of
           Inl e \<Rightarrow> (Raised e, self)
         | Inr self1 \<Rightarrow>
             pick_choice_load get_children
               (pick_choice_select rnd self1 choices use_randrange') all_choices)"

text \<open>
  \<open>__init__\<close>: \<open>xml_attrs = self.descriptor.xml_attributes or []\<close> is a list when the
  attributes are empty or None, and a list has no \<open>get\<close>.
\<close>

definition attrs_get :: "(string \<times> string) list \<Rightarrow> string \<Rightarrow> string \<Rightarrow> string" where
  "attrs_get d k dflt = (case map_of d k of None \<Rightarrow> dflt | Some v \<Rightarrow> v)"

definition init ::
  "(randomize_module \<Rightarrow> xblock list) \<Rightarrow> nat \<Rightarrow> randomize_module \<Rightarrow>
   unit outcome \<times> randomize_module" where
  "init get_children rnd self =
     (case xml_attributes self of
        [] \<Rightarrow> (Raised AttributeError, self)
      | a # as \<Rightarrow>
          (let self1 = self\<lparr>use_randrange :=
                              str_to_bool (attrs_get (a # as) ''use_randrange'' '''')\<rparr>;
               self2 = self1\<lparr>no_repeats :=
                              str_to_bool (attrs_get (a # as) ''no_repeats'' '''')\<rparr>
           in pick_choice get_children rnd self2 (use_randrange self2) (no_repeats self2)
                (suspended self2)))"

text \<open>
  \<open>student_view\<close>. \<open>self.system.render_template\<close> is the parameter \<open>render_template\<close>;
  the dictionary it is given is the record below. The index of the stored choice is
  computed while that dictionary is built, after the child was rendered.
\<close>

record control_context =
  ctx_element_id :: string
  ctx_is_staff :: bool
  ctx_ajax_url :: string
  ctx_choice :: nat
  ctx_num_choices :: nat

definition student_view ::
  "(string \<Rightarrow> control_context \<Rightarrow> string) \<Rightarrow> randomize_module \<Rightarrow>
   fragment outcome \<times> randomize_module" where
  "student_view render_template self =
     (case child self of
        None \<Rightarrow> (Returned \<lparr>content = ''<div>Nothing to randomize between</div>''\<rparr>, self)
      | Some ch \<Rightarrow>
          (let child_loc = url (location ch);
               self1 = (if child_loc \<notin> set (history self)
                        then self\<lparr>history := history self @ [child_loc]\<rparr> else self);
               child_html = render ch
           in if user_is_staff self1 then
                (let choices = keys (get_choices self1 False None)
                 in case get_choice_index self1 None (Some choices) of
                      Inl e \<Rightarrow> (Raised e, self1)
                    | Inr i \<Rightarrow>
                        (let dishtml = render_template ''randomize_control.html''
                               \<lparr>ctx_element_id = html_id self1,
                                ctx_is_staff = user_is_staff self1,
                                ctx_ajax_url = ajax_url self1,
                                ctx_choice = i,
                                ctx_num_choices = length choices\<rparr>
                         in (Returned \<lparr>content = ''<html>'' @ dishtml @ content child_html
                                                   @ ''</html>''\<rparr>, self1)))
              else (Returned child_html, self1)))"

text \<open>
  \<open>int(s)\<close> on a byte string: optional surrounding whitespace, an optional sign, then
  decimal digits; \<open>None\<close> is ValueError.
\<close>

definition isspace :: "char \<Rightarrow> bool" where
  "isspace c = (c \<in> set [CHR '' '', CHR 0x09, CHR 0x0A, CHR 0x0B, CHR 0x0C, CHR 0x0D])"

definition isdigit :: "char \<Rightarrow> bool" where
  "isdigit c = (48 \<le> (of_char c :: nat) \<and> (of_char c :: nat) \<le> 57)"

definition strip :: "string \<Rightarrow> string" where
  "strip s = rev (dropWhile isspace (rev (dropWhile isspace s)))"

definition digits :: "string \<Rightarrow> int option" where
  "digits s =
     (if s \<noteq> [] \<and> list_all isdigit s
      then Some (foldl (\<lambda>n c. 10 * n + (int (of_char c) - 48)) 0 s)
      else None)"

definition py_int :: "string \<Rightarrow> int option" where
  "py_int s =
     (case strip s of
        [] \<Rightarrow> None
      | c # cs \<Rightarrow>
          if c = CHR ''-'' then map_option uminus (digits cs)
          else if c = CHR ''+'' then digits cs
          else digits (c # cs))"

text \<open>\<open>"choice=%s" % self.choice\<close>: None is formatted as \<open>None\<close>.\<close>

definition format_choice :: "string option \<Rightarrow> string" where
  "format_choice c = ''choice='' @ (case c of None \<Rightarrow> ''None'' | Some s \<Rightarrow> s)"

text \<open>The value \<open>json.dumps(d)\<close> returns is the JSON text of the dictionary \<open>d\<close>; it is
  kept as the dictionary it encodes.\<close>

datatype json = Dumps "(string \<times> string) list"

text \<open>
  \<open>handle_ajax(dispatch, data)\<close>; \<open>data\<close> maps names to strings. The index of the stored
  choice is computed before the \<open>try\<close>, so its ValueError is not caught; neither is the
  KeyError of \<open>data['choice']\<close>. IndexError and the ValueError of \<open>int\<close> are caught and
  leave the object as it is.
\<close>

definition handle_ajax ::
  "randomize_module \<Rightarrow> string \<Rightarrow> (string \<Rightarrow> string option) \<Rightarrow> json outcome \<times> randomize_module" where
  "handle_ajax self dispatch data =
     (let result = (\<lambda>s. Returned (Dumps [(''ret'', format_choice (choice s))])) in
      if user_is_staff self then
        (let choices = keys (get_choices self False None)
         in case get_choice_index self None (Some choices) of
              Inl e \<Rightarrow> (Raised e, self)
            | Inr i \<Rightarrow>
                if dispatch = ''next'' then
                  (case getitem choices (int i + 1) of
                     Inr k \<Rightarrow> (let self1 = self\<lparr>choice := Some k\<rparr> in (result self1, self1))
                   | Inl e \<Rightarrow> (result self, self))
                else if dispatch = ''jump'' then
                  (case data ''choice'' of
                     None \<Rightarrow> (Raised KeyError, self)
                   | Some s \<Rightarrow>
                       (case py_int s of
                          None \<Rightarrow> (result self, self)
                        | Some j \<Rightarrow>
                            (case getitem choices j of
                               Inr k \<Rightarrow>
                                 (let self1 = self\<lparr>choice := Some k\<rparr> in (result self1, self1))
                             | Inl e \<Rightarrow> (result self, self))))
                else (result self, self))
      else (result self, self))"

definition get_icon_class' :: "randomize_module \<Rightarrow> string" where
  "get_icon_class' self = (case child self of Some ch \<Rightarrow> get_icon_class ch | None \<Rightarrow> ''other'')"

section \<open>dump\_to\_neo4j.py\<close>

subsection \<open>Field values\<close>

text \<open>A \<open>unicode\<close> object is its list of code points; a \<open>str\<close> is a byte string.\<close>

type_synonym unicode = "nat list"

text \<open>
  The values \<open>unicode()\<close> is applied to. \<open>AInt\<close> is an \<open>int\<close> or a \<open>long\<close>. \<open>AOther r\<close>
  is an object of any other type (None, a date, a dictionary, a key, and, as an element
  of a collection, also a float or a nested collection), given by what \<open>unicode()\<close> of it
  evaluates to: \<open>r\<close> is \<open>None\<close> when its conversion raises.
\<close>

datatype pyatom =
  AInt int | ABool bool | AStr string | AUnicode unicode | AOther "unicode option"

text \<open>
  A field value: one of the above, a \<open>float\<close> (its IEEE double), or a \<open>tuple\<close>, \<open>list\<close>,
  \<open>set\<close> or \<open>frozenset\<close> of them. Instances of subclasses of the builtin types are not
  modelled.
\<close>

datatype pyval =
    Atom pyatom
  | PFloat "64 word"
  | PTuple "pyatom list"
  | PList "pyatom list"
  | PSet "pyatom fset"
  | PFrozenset "pyatom fset"

text \<open>The decimal text of an integer, as \<open>unicode(n)\<close> gives it.\<close>

fun nat_text :: "nat \<Rightarrow> unicode" where
  "nat_text n = (if n < 10 then [48 + n] else nat_text (n div 10) @ [48 + n mod 10])"

declare nat_text.simps [simp del]

definition int_text :: "int \<Rightarrow> unicode" where
  "int_text i = (if i < 0 then of_char CHR ''-'' # nat_text (nat (- i)) else nat_text (nat i))"

text \<open>
  \<open>unicode(x)\<close>; \<open>None\<close> when the call raises. A byte string is decoded with the default
  codec, ASCII, which raises UnicodeDecodeError on a byte above 127.
\<close>

fun unicode' :: "pyatom \<Rightarrow> unicode option" where
  "unicode' (AInt i) = Some (int_text i)"
| "unicode' (ABool b) = Some (map of_char (if b then ''True'' else ''False''))"
| "unicode' (AStr s) =
     (if list_all (\<lambda>c. (of_char c :: nat) < 128) s then Some (map of_char s) else None)"
| "unicode' (AUnicode u) = Some u"
| "unicode' (AOther r) = r"

text \<open>\<open>isinstance(value, ITERABLE_NEO4J_TYPES)\<close> and
  \<open>isinstance(value, PRIMITIVE_NEO4J_TYPES)\<close>.\<close>

fun is_iterable_neo4j_type :: "pyval \<Rightarrow> bool" where
  "is_iterable_neo4j_type (PTuple xs) = True"
| "is_iterable_neo4j_type (PList xs) = True"
| "is_iterable_neo4j_type (PSet S) = True"
| "is_iterable_neo4j_type (PFrozenset S) = True"
| "is_iterable_neo4j_type v = False"

fun is_primitive_neo4j_type :: "pyval \<Rightarrow> bool" where
  "is_primitive_neo4j_type (Atom (AInt i)) = True"
| "is_primitive_neo4j_type (Atom (AStr s)) = True"
| "is_primitive_neo4j_type (Atom (AUnicode u)) = True"
| "is_primitive_neo4j_type (PFloat f) = True"
| "is_primitive_neo4j_type (Atom (ABool b)) = True"
| "is_primitive_neo4j_type v = False"

text \<open>The loop \<open>for element in value: coerced_value.append(unicode(element))\<close> over a
  sequence: the first conversion that raises ends it.\<close>

fun coerce_elements :: "pyatom list \<Rightarrow> unicode list \<Rightarrow> unicode list option" where
  "coerce_elements [] coerced_value = Some coerced_value"
| "coerce_elements (element # rest) coerced_value =
     (case unicode' element of
        None \<Rightarrow> None
      | Some u \<Rightarrow> coerce_elements rest (coerced_value @ [u]))"

text \<open>The same loop over a set, whose iteration order is not fixed: it raises when
  the conversion of some element does, and the set built from the list of texts is the
  image of the set.\<close>

definition coerce_set :: "pyatom fset \<Rightarrow> pyatom fset option" where
  "coerce_set S =
     (if fBall S (\<lambda>element. unicode' element \<noteq> None)
      then Some ((\<lambda>element. AUnicode (the (unicode' element))) |`| S)
      else None)"

text \<open>\<open>coerce_types(value)\<close>; \<open>None\<close> when it raises.\<close>

definition coerce_types :: "pyval \<Rightarrow> pyval option" where
  "coerce_types v =
     (if is_iterable_neo4j_type v then
        (case v of
           PTuple xs \<Rightarrow> map_option (\<lambda>us. PTuple (map AUnicode us)) (coerce_elements xs [])
         | PList xs \<Rightarrow> map_option (\<lambda>us. PList (map AUnicode us)) (coerce_elements xs [])
         | PSet S \<Rightarrow> map_option PSet (coerce_set S)
         | PFrozenset S \<Rightarrow> map_option PFrozenset (coerce_set S)
         | _ \<Rightarrow> Some v)
      else if \<not> is_primitive_neo4j_type v then
        (case v of
           Atom a \<Rightarrow> map_option (\<lambda>u. Atom (AUnicode u)) (unicode' a)
         | _ \<Rightarrow> Some v)
      else Some v)"

subsection \<open>Serializing a course\<close>

text \<open>
  A course key with its \<open>org\<close>, \<open>course\<close> and \<open>run\<close> attributes and the text
  \<open>unicode(course_key)\<close>.
\<close>

record course_key =
  org :: pyval
  course :: pyval
  run :: pyval
  key_text :: unicode

text \<open>
  An item of the modulestore, as far as the serializer reads it: \<open>item_fields\<close> are the
  pairs \<open>(field, field_value.read_from(item))\<close> of \<open>item.fields.iteritems()\<close>,
  \<open>edited_on\<close> is \<open>None\<close> when the item has no such attribute, \<open>usage_course_key\<close> is
  \<open>item.scope_ids.usage_id.course_key\<close>, \<open>block_type\<close> is \<open>item.scope_ids.block_type\<close>,
  \<open>item_location\<close> is \<open>item.location\<close> and \<open>item_children\<close> are the locations of the
  blocks \<open>item.get_children()\<close> returns.
\<close>

record item =
  item_fields :: "(string \<times> pyval) list"
  edited_on :: "pyatom option"
  display_name_with_default :: pyval
  usage_course_key :: course_key
  block_type :: string
  item_location :: location
  item_children :: "location list"

record course_summary =
  course_id :: course_key

record modulestore =
  get_course_summaries :: "course_summary list"
  get_items :: "course_key \<Rightarrow> item list"

text \<open>A py2neo Node is an object: \<open>node_id\<close> tells two nodes with the same label and
  properties apart. A Relationship holds its two nodes.\<close>

record node =
  node_id :: nat
  label :: string
  properties :: "(string, pyval) ordered_dict"

record relationship =
  start_node :: node
  rel_type :: string
  end_node :: node

text \<open>A Python \<open>dict\<close> with string keys is kept as its items, every key once:
  \<open>dict(pairs)\<close> is built like an \<open>OrderedDict\<close>, \<open>d[k] = v\<close> is \<open>setitem\<close>.\<close>

definition delitem :: "('k, 'v) ordered_dict \<Rightarrow> 'k \<Rightarrow> ('k, 'v) ordered_dict" where
  "delitem d k = filter (\<lambda>(k', v). k' \<noteq> k) d"

definition serialize_item :: "item \<Rightarrow> ((string, pyval) ordered_dict \<times> string) option" where
  "serialize_item item =
     (let fields = OrderedDict
            (filter (\<lambda>(field, field_value). field \<notin> set [''parent'', ''children''])
               (item_fields item));
          course_key = usage_course_key item
      in case unicode' (case edited_on item of None \<Rightarrow> AUnicode [] | Some e \<Rightarrow> e) of
           None \<Rightarrow> None
         | Some edited \<Rightarrow>
             (let fields = setitem fields ''edited_on'' (Atom (AUnicode edited));
                  fields = setitem fields ''display_name'' (display_name_with_default item);
                  fields = setitem fields ''org'' (org course_key);
                  fields = setitem fields ''course'' (course course_key);
                  fields = setitem fields ''run'' (run course_key);
                  fields = setitem fields ''course_key'' (Atom (AUnicode (key_text course_key)));
                  label = block_type item;
                  fields = (if label = ''course'' \<and> ''checklists'' \<in> set (keys fields)
                            then delitem fields ''checklists'' else fields)
              in Some (fields, label)))"

text \<open>\<open>for field_name, value in fields.iteritems(): fields[field_name] =
  self.coerce_types(value)\<close>.\<close>

fun coerce_fields :: "(string, pyval) ordered_dict \<Rightarrow> (string, pyval) ordered_dict option" where
  "coerce_fields [] = Some []"
| "coerce_fields ((field_name, v) # rest) =
     (case coerce_types v of
        None \<Rightarrow> None
      | Some v' \<Rightarrow> map_option ((#) (field_name, v')) (coerce_fields rest))"

text \<open>The body of the first loop of \<open>serialize_course\<close>: the node of an item, the
  \<open>n\<close>-th object created.\<close>

definition make_node :: "nat \<Rightarrow> item \<Rightarrow> node option" where
  "make_node n item =
     (case serialize_item item of
        None \<Rightarrow> None
      | Some (fields', label') \<Rightarrow>
          (case coerce_fields fields' of
             None \<Rightarrow> None
           | Some coerced \<Rightarrow> Some \<lparr>node_id = n, label = label', properties = coerced\<rparr>))"

text \<open>The first loop, with the list of nodes and the dictionary \<open>location_to_node\<close>
  built so far.\<close>

fun create_nodes ::
  "item list \<Rightarrow> node list \<Rightarrow> (location, node) ordered_dict \<Rightarrow>
   (node list \<times> (location, node) ordered_dict) option" where
  "create_nodes [] nodes location_to_node = Some (nodes, location_to_node)"
| "create_nodes (item # items) nodes location_to_node =
     (case make_node (length nodes) item of
        None \<Rightarrow> None
      | Some node \<Rightarrow>
          create_nodes items (nodes @ [node])
            (setitem location_to_node (item_location item) node))"

text \<open>The second loop.\<close>

definition create_relationships ::
  "item list \<Rightarrow> (location, node) ordered_dict \<Rightarrow> relationship list" where
  "create_relationships items location_to_node =
     concat (map (\<lambda>item.
       concat (map (\<lambda>child_loc.
         (case (map_of location_to_node (item_location item), map_of location_to_node child_loc) of
            (Some parent_node, Some child_node) \<Rightarrow>
              [\<lparr>start_node = parent_node, rel_type = ''PARENT_OF'', end_node = child_node\<rparr>]
          | _ \<Rightarrow> []))
         (item_children item)))
       items)"

definition serialize_course ::
  "modulestore \<Rightarrow> course_key \<Rightarrow> (node list \<times> relationship list) option" where
  "serialize_course ms cid =
     (let items = get_items ms cid
      in case create_nodes items [] [] of
           None \<Rightarrow> None
         | Some (nodes, location_to_node) \<Rightarrow>
             Some (nodes, create_relationships items location_to_node))"

subsection \<open>The command\<close>

text \<open>
  The graph database and its driver are not part of the repository. The model of them:
  the database holds the committed entities; one transaction is open at a time and
  buffers what \<open>create\<close> is given; \<open>commit\<close> adds the buffer to the database or raises
  and adds nothing; \<open>rollback\<close> drops the buffer. Which calls of \<open>create\<close> and \<open>commit\<close>
  raise is given from outside (\<open>create_raises\<close>, \<open>commit_raises\<close>, per course). Every
  call is recorded in \<open>events\<close>, in order, whether it raises or not.
\<close>

datatype entity = N node | R relationship

datatype event =
  DeleteAll | ClearRequestCache | SerializeCourse course_key | Begin | Create entity
  | Commit | Rollback

record neo4j =
  committed :: "entity list"
  pending :: "entity list"
  events :: "event list"

definition record_event :: "event \<Rightarrow> neo4j \<Rightarrow> neo4j" where
  "record_event e g = g\<lparr>events := events g @ [e]\<rparr>"

definition graph_delete_all :: "neo4j \<Rightarrow> neo4j" where
  "graph_delete_all g = record_event DeleteAll (g\<lparr>committed := []\<rparr>)"

definition graph_begin :: "neo4j \<Rightarrow> neo4j" where
  "graph_begin g = record_event Begin (g\<lparr>pending := []\<rparr>)"

definition transaction_create :: "(entity \<Rightarrow> bool) \<Rightarrow> entity \<Rightarrow> neo4j \<Rightarrow> bool \<times> neo4j" where
  "transaction_create raises e g =
     (if raises e then (False, record_event (Create e) g)
      else (True, record_event (Create e) (g\<lparr>pending := pending g @ [e]\<rparr>)))"

definition transaction_commit :: "bool \<Rightarrow> neo4j \<Rightarrow> bool \<times> neo4j" where
  "transaction_commit raises g =
     (if raises then (False, record_event Commit g)
      else (True, record_event Commit (g\<lparr>committed := committed g @ pending g, pending := []\<rparr>)))"

definition transaction_rollback :: "neo4j \<Rightarrow> neo4j" where
  "transaction_rollback g = record_event Rollback (g\<lparr>pending := []\<rparr>)"

text \<open>\<open>add_to_transaction\<close>: \<open>False\<close> when a \<open>create\<close> raised, which ends the loop.\<close>

fun add_to_transaction :: "(entity \<Rightarrow> bool) \<Rightarrow> entity list \<Rightarrow> neo4j \<Rightarrow> bool \<times> neo4j" where
  "add_to_transaction raises [] g = (True, g)"
| "add_to_transaction raises (e # neo4j_entities) g =
     (case transaction_create raises e g of
        (False, g') \<Rightarrow> (False, g')
      | (True, g') \<Rightarrow> add_to_transaction raises neo4j_entities g')"

text \<open>The \<open>try\<close> statement of \<open>handle\<close> for one course, with its \<open>except\<close> clause.\<close>

definition write_course ::
  "(entity \<Rightarrow> bool) \<Rightarrow> bool \<Rightarrow> node list \<Rightarrow> relationship list \<Rightarrow> neo4j \<Rightarrow> neo4j" where
  "write_course create_raises commit_raises nodes relationships g =
     (case add_to_transaction create_raises (map N nodes) g of
        (False, g1) \<Rightarrow> transaction_rollback g1
      | (True, g1) \<Rightarrow>
          (case add_to_transaction create_raises (map R relationships) g1 of
             (False, g2) \<Rightarrow> transaction_rollback g2
           | (True, g2) \<Rightarrow>
               (case transaction_commit commit_raises g2 of
                  (False, g3) \<Rightarrow> transaction_rollback g3
                | (True, g3) \<Rightarrow> g3)))"

text \<open>
  The loop of \<open>handle\<close> over the courses. \<open>serialize_course\<close> is called outside the \<open>try\<close>:
  when it raises, the command ends there (\<open>False\<close>).
\<close>

fun handle_courses ::
  "modulestore \<Rightarrow> (course_key \<Rightarrow> entity \<Rightarrow> bool) \<Rightarrow> (course_key \<Rightarrow> bool) \<Rightarrow>
   course_summary list \<Rightarrow> neo4j \<Rightarrow> bool \<times> neo4j" where
  "handle_courses ms create_raises commit_raises [] g = (True, g)"
| "handle_courses ms create_raises commit_raises (c # courses) g =
     (let g1 = record_event ClearRequestCache g;
          g2 = record_event (SerializeCourse (course_id c)) g1
      in case serialize_course ms (course_id c) of
           None \<Rightarrow> (False, g2)
         | Some (nodes, relationships) \<Rightarrow>
             handle_courses ms create_raises commit_raises courses
               (write_course (create_raises (course_id c)) (commit_raises (course_id c))
                  nodes relationships (graph_begin g2)))"

definition handle ::
  "modulestore \<Rightarrow> (course_key \<Rightarrow> entity \<Rightarrow> bool) \<Rightarrow> (course_key \<Rightarrow> bool) \<Rightarrow> neo4j \<Rightarrow>
   bool \<times> neo4j" where
  "handle ms create_raises commit_raises g =
     handle_courses ms create_raises commit_raises (get_course_summaries ms)
       (graph_delete_all g)"

section \<open>Definitions for the statements about randomize\_module.py\<close>

text \<open>The dictionary \<open>OrderedDict\<close> builds, started from a dictionary \<open>d\<close>.\<close>

definition build :: "('k, 'v) ordered_dict \<Rightarrow> ('k \<times> 'v) list \<Rightarrow> ('k, 'v) ordered_dict" where
  "build d ps = foldl (\<lambda>d (k, v). setitem d k v) d ps"

text \<open>The elements of a list in the order of their first occurrence, those in \<open>seen\<close>
  left out.\<close>

primrec first_occurrences :: "'a list \<Rightarrow> 'a list \<Rightarrow> 'a list" where
  "first_occurrences seen [] = []"
| "first_occurrences seen (x # xs) =
     (if x \<in> set seen then first_occurrences seen xs
      else x # first_occurrences (seen @ [x]) xs)"

text \<open>
  The children \<open>get_choices\<close> is specified to keep: a child is left out when the stored
  choice is None, \<open>no_repeats\<close> is true and its url is in the history, and when a
  non-empty \<open>suspended\<close> list has its name.
\<close>

definition available_children ::
  "randomize_module \<Rightarrow> bool \<Rightarrow> string list option \<Rightarrow> xblock list" where
  "available_children self no_repeats' suspended' =
     filter (\<lambda>c. \<not> (choice self = None \<and> no_repeats' \<and> url (location c) \<in> set (history self))
              \<and> \<not> (case suspended' of None \<Rightarrow> False
                     | Some names \<Rightarrow> names \<noteq> [] \<and> name (location c) \<in> set names))
       (descriptor_children self)"

text \<open>The calls that can change the module object, and a sequence of them.\<close>

datatype call =
    Init "randomize_module \<Rightarrow> xblock list" nat
  | PickChoice "randomize_module \<Rightarrow> xblock list" nat bool bool "string list option"
  | StudentView "string \<Rightarrow> control_context \<Rightarrow> string"
  | HandleAjax string "string \<Rightarrow> string option"

fun call_method :: "randomize_module \<Rightarrow> call \<Rightarrow> randomize_module" where
  "call_method self (Init gc rnd) = snd (init gc rnd self)"
| "call_method self (PickChoice gc rnd ur nr sus) = snd (pick_choice gc rnd self ur nr sus)"
| "call_method self (StudentView rt) = snd (student_view rt self)"
| "call_method self (HandleAjax dispatch data) = snd (handle_ajax self dispatch data)"

text \<open>A module over three problems, for a student who has seen nothing yet.\<close>

definition example_block :: "string \<Rightarrow> string \<Rightarrow> xblock" where
  "example_block u n =
     \<lparr>location = \<lparr>url = u, name = n\<rparr>, render = \<lparr>content = ''<p>'' @ n @ ''</p>''\<rparr>,
      get_icon_class = ''problem''\<rparr>"

definition example_module :: randomize_module where
  "example_module =
     \<lparr>choice = None, history = [], suspended = None, use_randrange = False,
      no_repeats = False, child_descriptor = None, child = None,
      descriptor_children =
        [example_block ''u1'' ''p1'', example_block ''u2'' ''p2'', example_block ''u3'' ''p3''],
      xml_attributes = [(''no_repeats'', ''true'')], seed = Some 7, user_is_staff = True,
      ajax_url = ''/ajax'', html_id = ''randomize_1''\<rparr>"

section \<open>Definitions for the statements about dump\_to\_neo4j.py\<close>

text \<open>The node \<open>location_to_node\<close> holds for a location after the first loop: the node
  of the last item with that location.\<close>

definition node_for :: "item list \<Rightarrow> node list \<Rightarrow> location \<Rightarrow> node option" where
  "node_for items nodes loc = map_of (rev (zip (map item_location items) nodes)) loc"

text \<open>The relationships of one parent and one of its children: one when the child's
  location is the location of an item, none otherwise. With one node per item, every
  location of an item has a node.\<close>

definition parent_of :: "item list \<Rightarrow> node list \<Rightarrow> item \<Rightarrow> location \<Rightarrow> relationship list" where
  "parent_of items nodes item child_loc =
     (if child_loc \<in> set (map item_location items)
      then [\<lparr>start_node = the (node_for items nodes (item_location item)),
             rel_type = ''PARENT_OF'',
             end_node = the (node_for items nodes child_loc)\<rparr>]
      else [])"

text \<open>What the command writes for a course: its nodes and relationships when no
  \<open>create\<close> and no \<open>commit\<close> raises, nothing otherwise.\<close>

definition written ::
  "modulestore \<Rightarrow> (course_key \<Rightarrow> entity \<Rightarrow> bool) \<Rightarrow> (course_key \<Rightarrow> bool) \<Rightarrow>
   course_summary \<Rightarrow> entity list" where
  "written ms create_raises commit_raises c =
     (case serialize_course ms (course_id c) of
        None \<Rightarrow> []
      | Some (nodes, relationships) \<Rightarrow>
          if list_ex (create_raises (course_id c)) (map N nodes @ map R relationships)
             \<or> commit_raises (course_id c)
          then [] else map N nodes @ map R relationships)"

text \<open>A modulestore with two courses. The first has two blocks: the course block, with
  a child that is an item and one that is not, and a problem. The second has one problem.
  A third course key, of no course summary, has an item with a tag that is a byte string
  with a byte above 127.\<close>

text \<open>The courses for which \<open>serialize_course\<close> returns.\<close>

definition serializes :: "modulestore \<Rightarrow> course_summary \<Rightarrow> bool" where
  "serializes ms c = (serialize_course ms (course_id c) \<noteq> None)"

definition example_course_key :: "string \<Rightarrow> course_key" where
  "example_course_key r =
     \<lparr>org = Atom (AUnicode (map of_char ''edX'')), course = Atom (AUnicode (map of_char ''Demo'')),
      run = Atom (AStr r), key_text = map of_char (''edX/Demo/'' @ r)\<rparr>"

definition example_item ::
  "string \<Rightarrow> string \<Rightarrow> string list \<Rightarrow> (string \<times> pyval) list \<Rightarrow> item" where
  "example_item ty n cs fs =
     \<lparr>item_fields = fs, edited_on = None,
      display_name_with_default = Atom (AUnicode (map of_char n)),
      usage_course_key = example_course_key ''2016'', block_type = ty,
      item_location = \<lparr>url = ''i4x://'' @ n, name = n\<rparr>,
      item_children = map (\<lambda>c. \<lparr>url = ''i4x://'' @ c, name = c\<rparr>) cs\<rparr>"

definition example_modulestore :: modulestore where
  "example_modulestore =
     \<lparr>get_course_summaries =
        [\<lparr>course_id = example_course_key ''2016''\<rparr>, \<lparr>course_id = example_course_key ''2017''\<rparr>],
      get_items = (\<lambda>k.
        if k = example_course_key ''2016'' then
          [example_item ''course'' ''a'' [''b'', ''z'']
             [(''children'', PList [AStr ''b'', AStr ''z'']), (''weight'', Atom (AInt 3))],
           example_item ''problem'' ''b'' [] [(''tags'', PTuple [AInt 1, ABool True])]]
        else if k = example_course_key ''2017'' then
          [example_item ''problem'' ''d'' [] [(''weight'', Atom (AInt 1))]]
        else if k = example_course_key ''bad'' then
          [example_item ''problem'' ''c'' [] [(''tags'', PList [AStr [CHR 0xFF]])]]
        else [])\<rparr>"

definition empty_graph :: neo4j where
  "empty_graph = \<lparr>committed = [], pending = [], events = []\<rparr>"

section \<open>The ordered dictionary\<close>

lemma keys_setitem: "keys (setitem d k v) = (if k \<in> set (keys d) then keys d else keys d @ [k])"
  by (induction d) (auto simp: keys_def rev_image_eqI)

lemma map_of_setitem: "map_of (setitem d k v) = (map_of d)(k \<mapsto> v)"
  by (induction d) (auto simp: fun_eq_iff)

lemma build_simps: "build d [] = d" "build d (p # ps) = build (setitem d (fst p) (snd p)) ps"
  by (simp_all add: build_def case_prod_beta)

lemma keys_build: "set (keys (build d ps)) = set (keys d) \<union> fst ` set ps"
  by (induction ps arbitrary: d) (auto simp: build_simps keys_setitem)

lemma distinct_build: "distinct (keys d) \<Longrightarrow> distinct (keys (build d ps))"
  by (induction ps arbitrary: d) (auto simp: build_simps keys_setitem)

lemma map_of_build: "map_of (build d ps) = map_of d ++ map_of (rev ps)"
  by (induction ps arbitrary: d)
    (auto simp: build_simps map_of_setitem fun_eq_iff map_add_def split: option.splits)

lemma build_distinct: "distinct (keys d @ map fst ps) \<Longrightarrow> build d ps = d @ ps"
proof (induction ps arbitrary: d)
  case Nil
  then show ?case by (simp add: build_simps)
next
  case (Cons p ps)
  have s: "setitem d (fst p) (snd p) = d @ [p]" using Cons.prems
    by (induction d) (auto simp: keys_def)
  show ?case using Cons.prems Cons.IH [of "d @ [p]"] by (simp add: build_simps s keys_def)
qed

lemma keys_build_order: "keys (build d ps) = keys d @ first_occurrences (keys d) (map fst ps)"
  by (induction ps arbitrary: d) (simp_all add: build_simps keys_setitem)

lemma OrderedDict_build: "OrderedDict ps = build [] ps"
  by (simp add: OrderedDict_def build_def)

lemma keys_OrderedDict: "keys (OrderedDict ps) = first_occurrences [] (map fst ps)"
  using keys_build_order [of "[]" ps] by (simp add: OrderedDict_build keys_def)

lemma set_keys_OrderedDict: "set (keys (OrderedDict ps)) = fst ` set ps"
  using keys_build [of "[]" ps] by (simp add: OrderedDict_build keys_def)

lemma distinct_keys_OrderedDict: "distinct (keys (OrderedDict ps))"
  using distinct_build [of "[]" ps] by (simp add: OrderedDict_build keys_def)

lemma map_of_OrderedDict: "map_of (OrderedDict ps) = map_of (rev ps)"
  by (simp add: OrderedDict_build map_of_build)

lemma OrderedDict_distinct: "distinct (map fst ps) \<Longrightarrow> OrderedDict ps = ps"
  by (simp add: OrderedDict_build build_distinct keys_def)

lemma map_of_OrderedDict_mem: "map_of (OrderedDict ps) k = Some v \<Longrightarrow> (k, v) \<in> set ps"
  by (simp add: map_of_OrderedDict) (metis map_of_SomeD set_rev)

section \<open>get\_choices\<close>

lemma filter_filter_conj: "filter P (filter Q xs) = filter (\<lambda>x. Q x \<and> P x) xs"
  by (induction xs) auto

lemma get_choices_available:
  "get_choices self nr sus =
     OrderedDict (map (\<lambda>c. (url (location c), c)) (available_children self nr sus))"
proof (cases sus)
  case None
  then show ?thesis
    by (simp add: get_choices_def available_children_def Let_def)
next
  case (Some names)
  show ?thesis
  proof (cases names)
    case Nil
    with Some show ?thesis
      by (simp add: get_choices_def available_children_def Let_def)
  next
    case (Cons a as)
    with Some show ?thesis
      by (simp add: get_choices_def available_children_def Let_def filter_filter_conj)
  qed
qed

lemma available_no_arguments: "available_children self False None = descriptor_children self"
  by (simp add: available_children_def)

lemma get_choices_lookup:
  assumes "map_of (get_choices self nr sus) k = Some c"
  shows "c \<in> set (available_children self nr sus) \<and> url (location c) = k"
  using map_of_OrderedDict_mem [OF assms [unfolded get_choices_available]] by auto

lemma get_choices_keys_set:
  "set (keys (get_choices self nr sus)) = (\<lambda>c. url (location c)) ` set (available_children self nr sus)"
  by (simp add: get_choices_available set_keys_OrderedDict image_image)

lemma get_choices_keys:
  "keys (get_choices self nr sus) =
       first_occurrences [] (map (\<lambda>c. url (location c)) (available_children self nr sus))"
  by (simp add: get_choices_available keys_OrderedDict comp_def)

lemma get_choices_distinct_keys: "distinct (keys (get_choices self nr sus))"
  by (simp add: get_choices_available distinct_keys_OrderedDict)

lemma get_choices_distinct_urls:
  assumes "distinct (map (\<lambda>c. url (location c)) (descriptor_children self))"
  shows "get_choices self nr sus =
           map (\<lambda>c. (url (location c), c)) (available_children self nr sus)"
proof -
  have "distinct (map (\<lambda>c. url (location c)) (available_children self nr sus))"
    using assms by (simp add: available_children_def distinct_map_filter)
  then show ?thesis
    by (simp add: get_choices_available OrderedDict_distinct comp_def)
qed

lemma available_children_subset:
  "set (available_children self nr sus) \<subseteq> set (descriptor_children self)"
  by (auto simp: available_children_def)

lemma setitem_same:
  assumes "inj_on f (set ds \<union> {x})" and "x \<in> set ds"
  shows "setitem (map (\<lambda>c. (f c, c)) ds) (f x) x = map (\<lambda>c. (f c, c)) ds"
  using assms
proof (induction ds)
  case Nil
  then show ?case by simp
next
  case (Cons d ds)
  show ?case
  proof (cases "f d = f x")
    case True
    from inj_onD [OF Cons.prems(1) True] have "d = x" by simp
    then show ?thesis by simp
  next
    case False
    with Cons.prems have "x \<in> set ds" by auto
    moreover have "inj_on f (set ds \<union> {x})"
      by (rule inj_on_subset [OF Cons.prems(1)]) auto
    ultimately show ?thesis using Cons.IH False by simp
  qed
qed

lemma setitem_new:
  assumes "k \<notin> fst ` set d"
  shows "setitem d k v = d @ [(k, v)]"
  using assms by (induction d) auto

lemma build_inj:
  assumes "inj_on f (set ds \<union> set xs)"
  shows "build (map (\<lambda>c. (f c, c)) ds) (map (\<lambda>c. (f c, c)) xs) =
           map (\<lambda>c. (f c, c)) (ds @ first_occurrences ds xs)"
  using assms
proof (induction xs arbitrary: ds)
  case Nil
  then show ?case by (simp add: build_simps)
next
  case (Cons x xs)
  show ?case
  proof (cases "x \<in> set ds")
    case True
    have "inj_on f (set ds \<union> {x})"
      by (rule inj_on_subset [OF Cons.prems]) auto
    moreover have "inj_on f (set ds \<union> set xs)"
      by (rule inj_on_subset [OF Cons.prems]) auto
    ultimately show ?thesis
      using True Cons.IH [of ds] by (simp add: build_simps setitem_same)
  next
    case False
    have "f x \<noteq> f c" if "c \<in> set ds" for c
    proof
      assume "f x = f c"
      from inj_onD [OF Cons.prems this] that have "x = c" by simp
      with that False show False by simp
    qed
    then have "f x \<notin> fst ` set (map (\<lambda>c. (f c, c)) ds)"
      by (auto simp: image_iff)
    then have s: "setitem (map (\<lambda>c. (f c, c)) ds) (f x) x = map (\<lambda>c. (f c, c)) (ds @ [x])"
      by (simp add: setitem_new)
    have "inj_on f (set (ds @ [x]) \<union> set xs)"
      by (rule inj_on_subset [OF Cons.prems]) auto
    from Cons.IH [OF this] False show ?thesis
      by (simp add: build_simps s)
  qed
qed

lemma get_choices_inj:
  assumes "inj_on (\<lambda>c. url (location c)) (set (descriptor_children self))"
  shows "get_choices self nr sus =
     map (\<lambda>c. (url (location c), c)) (first_occurrences [] (available_children self nr sus))"
proof -
  have "inj_on (\<lambda>c. url (location c)) (set [] \<union> set (available_children self nr sus))"
    by (rule inj_on_subset [OF assms]) (use available_children_subset [of self nr sus] in auto)
  from build_inj [OF this] show ?thesis
    by (simp add: get_choices_available OrderedDict_build)
qed

text \<open>
  C5: \<open>get_choices\<close> returns the ordered dictionary built from the pairs (location url,
  child) of the kept children, in their order: its keys are their urls in the order of
  first occurrence, every key once; every key maps to a kept child with that url, and
  the url of every kept child is a key. When the urls of the children are distinct the
  dictionary is exactly the list of those pairs; when children with the same url are the
  same child, it is the list of the pairs of the kept children in the order of their
  first occurrence. A child is left out when the stored choice is None, \<open>no_repeats\<close> is
  true and its url is in the history, and when a non-empty \<open>suspended\<close> list has its
  name; with no arguments every child is kept.
\<close>

theorem get_choices_ordered_dict:
  "get_choices self nr sus =
     OrderedDict (map (\<lambda>c. (url (location c), c)) (available_children self nr sus))
   \<and> keys (get_choices self nr sus) =
       first_occurrences [] (map (\<lambda>c. url (location c)) (available_children self nr sus))
   \<and> distinct (keys (get_choices self nr sus))
   \<and> (\<forall>k c. map_of (get_choices self nr sus) k = Some c \<longrightarrow>
         c \<in> set (available_children self nr sus) \<and> url (location c) = k)
   \<and> (\<forall>c \<in> set (available_children self nr sus).
         url (location c) \<in> set (keys (get_choices self nr sus)))
   \<and> (distinct (map (\<lambda>c. url (location c)) (descriptor_children self)) \<longrightarrow>
         get_choices self nr sus =
           map (\<lambda>c. (url (location c), c)) (available_children self nr sus))
   \<and> (inj_on (\<lambda>c. url (location c)) (set (descriptor_children self)) \<longrightarrow>
         get_choices self nr sus =
           map (\<lambda>c. (url (location c), c))
             (first_occurrences [] (available_children self nr sus)))
   \<and> available_children self False None = descriptor_children self"
  using get_choices_available [of self nr sus] get_choices_keys [of self nr sus]
    get_choices_distinct_keys [of self nr sus] get_choices_lookup [of self nr sus]
    get_choices_keys_set [of self nr sus] get_choices_distinct_urls [of self nr sus]
    get_choices_inj [of self nr sus] available_no_arguments [of self]
  by blast

theorem get_choices_ordered_dict_witness:
  "distinct (map (\<lambda>c. url (location c)) (descriptor_children example_module))
   \<and> get_choices (example_module\<lparr>history := [''u1'']\<rparr>) True (Some [''p2'']) =
       [(''u3'', example_block ''u3'' ''p3'')]
   \<and> get_choices example_module False None =
       [(''u1'', example_block ''u1'' ''p1''), (''u2'', example_block ''u2'' ''p2''),
        (''u3'', example_block ''u3'' ''p3'')]
   \<and> get_choices (example_module\<lparr>descriptor_children :=
         [example_block ''u1'' ''p1'', example_block ''u2'' ''p2'', example_block ''u1'' ''p1'']\<rparr>)
         False None =
       [(''u1'', example_block ''u1'' ''p1''), (''u2'', example_block ''u2'' ''p2'')]"
proof -
  let ?m = "example_module\<lparr>history := [''u1'']\<rparr>"
  let ?d = "example_module\<lparr>descriptor_children :=
         [example_block ''u1'' ''p1'', example_block ''u2'' ''p2'', example_block ''u1'' ''p1'']\<rparr>"
  have d: "distinct (map (\<lambda>c. url (location c)) (descriptor_children example_module))"
    "distinct (map (\<lambda>c. url (location c)) (descriptor_children ?m))"
    by (simp_all add: example_module_def example_block_def)
  from get_choices_ordered_dict [of ?m True "Some [''p2'']"] d(2)
  have "get_choices ?m True (Some [''p2'']) =
          map (\<lambda>c. (url (location c), c)) (available_children ?m True (Some [''p2'']))"
    by blast
  also have "\<dots> = [(''u3'', example_block ''u3'' ''p3'')]"
    by (simp add: example_module_def example_block_def available_children_def)
  finally have a: "get_choices ?m True (Some [''p2'']) = [(''u3'', example_block ''u3'' ''p3'')]" .
  from get_choices_ordered_dict [of example_module False None] d(1)
  have "get_choices example_module False None =
          map (\<lambda>c. (url (location c), c)) (descriptor_children example_module)"
    by metis
  also have "\<dots> = [(''u1'', example_block ''u1'' ''p1''), (''u2'', example_block ''u2'' ''p2''),
        (''u3'', example_block ''u3'' ''p3'')]"
    by (simp add: example_module_def example_block_def)
  finally have b: "get_choices example_module False None =
       [(''u1'', example_block ''u1'' ''p1''), (''u2'', example_block ''u2'' ''p2''),
        (''u3'', example_block ''u3'' ''p3'')]" .
  have "inj_on (\<lambda>c. url (location c)) (set (descriptor_children ?d))"
    by (auto simp: example_module_def example_block_def inj_on_def)
  with get_choices_ordered_dict [of ?d False None]
  have "get_choices ?d False None =
          map (\<lambda>c. (url (location c), c)) (first_occurrences [] (descriptor_children ?d))"
    by metis
  also have "\<dots> = [(''u1'', example_block ''u1'' ''p1''), (''u2'', example_block ''u2'' ''p2'')]"
    by (simp add: example_module_def example_block_def)
  finally show ?thesis using d(1) a b by simp
qed

section \<open>pick\_choice\<close>

lemma pick_choice_reset_same:
  "pick_choice_reset self (get_choices self nr sus) (get_choices self False None) sus = Inr self"
proof (cases "dict_get (get_choices self False None) (choice self)")
  case None
  then show ?thesis by (simp add: pick_choice_reset_def)
next
  case (Some c)
  then obtain k where k: "choice self = Some k"
    and m: "map_of (get_choices self False None) k = Some c"
    by (cases "choice self") (auto simp: dict_get_def)
  from get_choices_lookup [OF m]
  have c: "c \<in> set (descriptor_children self)" "url (location c) = k"
    by (simp_all add: available_no_arguments)
  show ?thesis
  proof (cases "contains (get_choices self nr sus) (choice self)")
    case True
    with Some show ?thesis by (simp add: pick_choice_reset_def)
  next
    case False
    then have "k \<notin> (\<lambda>c. url (location c)) ` set (available_children self nr sus)"
      by (simp add: contains_def k get_choices_keys_set)
    with c have "c \<notin> set (available_children self nr sus)" by auto
    with c k obtain names where "sus = Some names" "name (location c) \<in> set names"
      by (auto simp: available_children_def split: option.splits)
    with Some False show ?thesis by (simp add: pick_choice_reset_def)
  qed
qed

lemma pick_choice_unfold:
  "pick_choice gc rnd self ur nr sus =
     pick_choice_load gc
       (pick_choice_select rnd self (get_choices self nr sus) ur) (get_choices self False None)"
  by (simp add: pick_choice_def Let_def pick_choice_reset_same)

lemma choice_pick_choice_load: "choice (snd (pick_choice_load gc self d)) = choice self"
  by (simp add: pick_choice_load_def Let_def)

lemma history_pick_choice_load: "history (snd (pick_choice_load gc self d)) = history self"
  by (simp add: pick_choice_load_def Let_def)

lemma history_pick_choice_select: "history (pick_choice_select rnd self d ur) = history self"
  by (simp add: pick_choice_select_def Let_def split: option.splits sum.splits)

lemma pick_choice_select_stored:
  "choice self = Some k \<Longrightarrow> pick_choice_select rnd self d ur = self"
  by (simp add: pick_choice_select_def)

lemma pick_choice_stored:
  "choice self = Some k \<Longrightarrow> choice (snd (pick_choice gc rnd self ur nr sus)) = Some k"
  by (simp add: pick_choice_unfold choice_pick_choice_load pick_choice_select_stored)

lemma history_pick_choice: "history (snd (pick_choice gc rnd self ur nr sus)) = history self"
  by (simp add: pick_choice_unfold history_pick_choice_load history_pick_choice_select)

lemma pick_choice_select_seeded:
  assumes "choice self = None" "0 < len d" "seed self = Some s"
  shows "choice (pick_choice_select rnd self d False) = Some (keys d ! nat (s mod int (len d)))"
  using assms by (simp add: pick_choice_select_def Let_def)

lemma child_descriptor_pick_choice_load:
  "choice self \<noteq> None \<Longrightarrow>
     child_descriptor (snd (pick_choice_load gc self d)) = dict_get d (choice self)"
  by (simp add: pick_choice_load_def Let_def)

lemma get_choices_key_child:
  assumes "k \<in> set (keys (get_choices self nr sus))"
  shows "\<exists>c \<in> set (descriptor_children self).
           url (location c) = k \<and> map_of (get_choices self False None) k = Some c"
proof -
  from assms have "k \<in> (\<lambda>c. url (location c)) ` set (descriptor_children self)"
    using available_children_subset [of self nr sus] by (auto simp: get_choices_keys_set)
  then have "k \<in> set (keys (get_choices self False None))"
    by (simp add: get_choices_keys_set available_no_arguments)
  then have "map_of (get_choices self False None) k \<noteq> None"
    by (simp add: keys_def map_of_eq_None_iff)
  then obtain c where c: "map_of (get_choices self False None) k = Some c" by blast
  from get_choices_lookup [OF c] show ?thesis
    using c by (auto simp: available_no_arguments)
qed

text \<open>
  C1: when the stored choice is None, the filtered dictionary \<open>get_choices(no_repeats,
  suspended)\<close> has \<open>n > 0\<close> entries, the seed is \<open>s\<close> and \<open>use_randrange\<close> is false,
  \<open>pick_choice\<close> stores the key at index \<open>s mod n\<close> of that dictionary, an index in
  range, and sets \<open>child_descriptor\<close> to a child with that url. The stored choice then
  depends neither on the random draw nor on what \<open>get_children\<close> returns, and a later
  call of \<open>pick_choice\<close>, with any arguments, keeps it: the same child is selected on
  every call.
\<close>

theorem pick_choice_seeded:
  assumes "choice self = None"
    and "len (get_choices self nr sus) = n" and "0 < n"
    and "seed self = Some s"
  shows "choice (snd (pick_choice gc rnd self False nr sus)) =
           Some (keys (get_choices self nr sus) ! nat (s mod int n))
         \<and> nat (s mod int n) < length (keys (get_choices self nr sus))
         \<and> (\<exists>c \<in> set (descriptor_children self).
               url (location c) = keys (get_choices self nr sus) ! nat (s mod int n)
               \<and> child_descriptor (snd (pick_choice gc rnd self False nr sus)) = Some c)
         \<and> choice (snd (pick_choice gc' rnd' self False nr sus)) =
             choice (snd (pick_choice gc rnd self False nr sus))
         \<and> choice (snd (pick_choice gc' rnd' (snd (pick_choice gc rnd self False nr sus))
                            ur' nr' sus')) =
             choice (snd (pick_choice gc rnd self False nr sus))"
proof -
  let ?k = "keys (get_choices self nr sus) ! nat (s mod int n)"
  have sel: "choice (pick_choice_select r self (get_choices self nr sus) False) = Some ?k" for r
    using assms by (simp add: pick_choice_select_seeded)
  have ch: "choice (snd (pick_choice g r self False nr sus)) = Some ?k" for g r
    by (simp add: pick_choice_unfold choice_pick_choice_load sel)
  have "s mod int n < int n" using assms(3) by simp
  moreover have "0 \<le> s mod int n" using assms(3) by simp
  ultimately have "nat (s mod int n) < n" by linarith
  then have rng: "nat (s mod int n) < length (keys (get_choices self nr sus))"
    using assms(2) by (simp add: len_def keys_def)
  then have "?k \<in> set (keys (get_choices self nr sus))" by simp
  from get_choices_key_child [OF this] obtain c where
    c: "c \<in> set (descriptor_children self)" "url (location c) = ?k"
      "map_of (get_choices self False None) ?k = Some c"
    by blast
  have "child_descriptor (snd (pick_choice gc rnd self False nr sus)) = Some c"
    by (simp add: pick_choice_unfold child_descriptor_pick_choice_load sel dict_get_def c(3))
  with c have cd: "\<exists>c \<in> set (descriptor_children self).
      url (location c) = ?k
      \<and> child_descriptor (snd (pick_choice gc rnd self False nr sus)) = Some c"
    by blast
  show ?thesis
    using ch rng cd pick_choice_stored [OF ch] by simp
qed

theorem pick_choice_seeded_witness:
  "choice example_module = None
   \<and> len (get_choices example_module False None) = 3
   \<and> seed example_module = Some 7
   \<and> choice (snd (pick_choice get_child_descriptors 0 example_module False False None)) =
       Some ''u2''"
  using pick_choice_seeded [where self = example_module and nr = False and sus = None
      and n = 3 and s = 7 and gc = get_child_descriptors and rnd = 0]
  by (simp add: example_module_def example_block_def get_choices_def OrderedDict_def
      len_def keys_def)

text \<open>
  C4: \<open>pick_choice\<close> leaves a stored choice that is not None as it is, in every case:
  when it is still a key of the filtered dictionary, when the chosen child is suspended,
  and when the chosen child is no child any more. The first \<open>if\<close> statement never resets
  it, because its three conditions (the chosen child is among all children, the choice
  is no key of the filtered dictionary, the child's name is not in \<open>suspended\<close>) never
  hold together: with a choice stored, the filtered dictionary leaves out suspended
  children only.
\<close>

theorem pick_choice_keeps_stored_choice:
  assumes "choice self = Some k"
  shows "choice (snd (pick_choice gc rnd self ur nr sus)) = Some k
         \<and> pick_choice_reset self (get_choices self nr sus) (get_choices self False None) sus
             = Inr self
         \<and> \<not> (\<exists>c. dict_get (get_choices self False None) (choice self) = Some c
                 \<and> \<not> contains (get_choices self nr sus) (choice self)
                 \<and> (case sus of None \<Rightarrow> True
                     | Some names \<Rightarrow> name (location c) \<notin> set names))"
proof -
  have "False" if c: "dict_get (get_choices self False None) (choice self) = Some c"
    and a: "\<not> contains (get_choices self nr sus) (choice self)"
    and s: "case sus of None \<Rightarrow> True | Some names \<Rightarrow> name (location c) \<notin> set names" for c
    using pick_choice_reset_same [of self nr sus] c a s assms
    by (cases sus) (auto simp: pick_choice_reset_def dest: arg_cong [where f = choice])
  then show ?thesis
    using pick_choice_stored [OF assms] pick_choice_reset_same by blast
qed


theorem pick_choice_keeps_stored_choice_witness:
  "choice (example_module\<lparr>choice := Some ''u2''\<rparr>) = Some ''u2''
   \<and> \<not> contains (get_choices (example_module\<lparr>choice := Some ''u2''\<rparr>) True (Some [''p2'']))
         (Some ''u2'')
   \<and> choice (snd (pick_choice get_child_descriptors 0 (example_module\<lparr>choice := Some ''u2''\<rparr>)
                    False True (Some [''p2'']))) = Some ''u2''"
  using pick_choice_keeps_stored_choice [where self = "example_module\<lparr>choice := Some ''u2''\<rparr>"
      and k = "''u2''" and gc = get_child_descriptors and rnd = 0 and ur = False and nr = True
      and sus = "Some [''p2'']"]
  by (simp add: example_module_def example_block_def get_choices_def OrderedDict_def
      contains_def keys_def)

lemma getitem_last: "xs \<noteq> [] \<Longrightarrow> getitem xs (- 1) = Inr (last xs)"
  by (cases xs rule: rev_cases) (simp_all add: getitem_def nat_add_distrib)

lemma getitem_Nil: "getitem [] i = Inl IndexError"
  by (simp add: getitem_def)

lemma pick_choice_select_none_left:
  assumes "choice self = None" and "len d = 0"
  shows "pick_choice_select rnd self d ur =
           (if history self = [] then self else self\<lparr>choice := Some (last (history self))\<rparr>)"
  using assms by (simp add: pick_choice_select_def Let_def getitem_last getitem_Nil)

text \<open>
  C7: when the stored choice is None and the filtered dictionary is empty, \<open>pick_choice\<close>
  stores the last element of a non-empty history. With an empty history it returns with
  the choice still None and \<open>child_descriptor\<close> and \<open>child\<close> set to None; then
  \<open>get_child_descriptors\<close> returns the empty list and \<open>student_view\<close> returns the fragment
  \<open><div>Nothing to randomize between</div>\<close>, leaving the object as it is.
\<close>

theorem pick_choice_no_choices_left:
  assumes "choice self = None" and "len (get_choices self nr sus) = 0"
  shows "(history self \<noteq> [] \<longrightarrow>
            choice (snd (pick_choice gc rnd self ur nr sus)) = Some (last (history self)))
         \<and> (history self = [] \<longrightarrow>
              pick_choice gc rnd self ur nr sus =
                (Returned (), self\<lparr>child_descriptor := None, child := None\<rparr>)
              \<and> choice (snd (pick_choice gc rnd self ur nr sus)) = None
              \<and> child_descriptor (snd (pick_choice gc rnd self ur nr sus)) = None
              \<and> child (snd (pick_choice gc rnd self ur nr sus)) = None
              \<and> get_child_descriptors (snd (pick_choice gc rnd self ur nr sus)) = []
              \<and> student_view rt (snd (pick_choice gc rnd self ur nr sus)) =
                  (Returned \<lparr>content = ''<div>Nothing to randomize between</div>''\<rparr>,
                   snd (pick_choice gc rnd self ur nr sus)))"
proof (cases "history self = []")
  case True
  have sel: "pick_choice_select rnd self (get_choices self nr sus) ur = self"
    using assms True by (simp add: pick_choice_select_none_left)
  have p: "pick_choice gc rnd self ur nr sus =
             (Returned (), self\<lparr>child_descriptor := None, child := None\<rparr>)"
    using assms(1) by (simp add: pick_choice_unfold sel pick_choice_load_def)
  show ?thesis
    using True assms(1) by (simp add: p get_child_descriptors_def student_view_def)
next
  case False
  have sel: "pick_choice_select rnd self (get_choices self nr sus) ur =
               self\<lparr>choice := Some (last (history self))\<rparr>"
    using assms False by (simp add: pick_choice_select_none_left)
  show ?thesis
    using False by (simp add: pick_choice_unfold sel choice_pick_choice_load)
qed

theorem pick_choice_no_choices_left_witness:
  "len (get_choices (example_module\<lparr>descriptor_children := []\<rparr>) False None) = 0
   \<and> pick_choice get_child_descriptors 0 (example_module\<lparr>descriptor_children := []\<rparr>)
         False False None =
       (Returned (), example_module\<lparr>descriptor_children := []\<rparr>)
   \<and> fst (student_view (\<lambda>t c. [])
          (snd (pick_choice get_child_descriptors 0 (example_module\<lparr>descriptor_children := []\<rparr>)
                  False False None))) =
       Returned \<lparr>content = ''<div>Nothing to randomize between</div>''\<rparr>
   \<and> len (get_choices (example_module\<lparr>history := [''u1'', ''u2'', ''u3'']\<rparr>) True None) = 0
   \<and> choice (snd (pick_choice get_child_descriptors 0
          (example_module\<lparr>history := [''u1'', ''u2'', ''u3'']\<rparr>) False True None)) = Some ''u3''"
proof -
  let ?m = "example_module\<lparr>descriptor_children := []\<rparr>"
  let ?h = "example_module\<lparr>history := [''u1'', ''u2'', ''u3'']\<rparr>"
  have m: "choice ?m = None" "history ?m = []"
    "?m\<lparr>child_descriptor := None, child := None\<rparr> = ?m"
    by (simp_all add: example_module_def)
  have e: "len (get_choices ?m False None) = 0"
    by (simp add: example_module_def get_choices_def OrderedDict_def len_def)
  have h: "choice ?h = None" "history ?h \<noteq> []" "last (history ?h) = ''u3''"
    by (simp_all add: example_module_def)
  have f: "len (get_choices ?h True None) = 0"
    by (simp add: example_module_def example_block_def get_choices_def OrderedDict_def len_def)
  note a = pick_choice_no_choices_left [OF m(1) e, where gc = get_child_descriptors
      and rnd = 0 and ur = False and rt = "\<lambda>t c. []"]
  note b = pick_choice_no_choices_left [OF h(1) f, where gc = get_child_descriptors
      and rnd = 0 and ur = False]
  from a m(2) have
    "pick_choice get_child_descriptors 0 ?m False False None =
       (Returned (), ?m\<lparr>child_descriptor := None, child := None\<rparr>)"
    "student_view (\<lambda>t c. []) (snd (pick_choice get_child_descriptors 0 ?m False False None)) =
       (Returned \<lparr>content = ''<div>Nothing to randomize between</div>''\<rparr>,
        snd (pick_choice get_child_descriptors 0 ?m False False None))"
    by blast+
  moreover from b h(2) have
    "choice (snd (pick_choice get_child_descriptors 0 ?h False True None)) =
       Some (last (history ?h))"
    by blast
  ultimately show ?thesis
    using e f by (simp add: m(3) h(3))
qed

section \<open>The history\<close>

lemma history_init: "history (snd (init gc rnd self)) = history self"
  by (simp add: init_def Let_def history_pick_choice split: list.splits)

lemma history_student_view:
  "history (snd (student_view rt self)) =
     (case child self of
        None \<Rightarrow> history self
      | Some ch \<Rightarrow>
          if url (location ch) \<in> set (history self) then history self
          else history self @ [url (location ch)])"
  by (simp add: student_view_def Let_def split: option.splits sum.splits)

lemma history_handle_ajax: "history (snd (handle_ajax self dispatch data)) = history self"
  by (simp add: handle_ajax_def Let_def split: option.splits sum.splits)

lemma distinct_history_student_view:
  "distinct (history self) \<Longrightarrow> distinct (history (snd (student_view rt self)))"
  by (simp add: history_student_view split: option.splits)

lemma distinct_history_call:
  "distinct (history self) \<Longrightarrow> distinct (history (call_method self c))"
  by (cases c)
    (simp_all add: history_init history_pick_choice history_handle_ajax
      distinct_history_student_view)

lemma distinct_history_calls:
  "distinct (history self) \<Longrightarrow> distinct (history (foldl call_method self calls))"
  by (induction calls arbitrary: self) (simp_all add: distinct_history_call)

text \<open>
  C6: \<open>student_view\<close> appends the url of the child it renders to the history exactly when
  that url is not in it yet, and changes the history in no other way. \<open>__init__\<close>,
  \<open>pick_choice\<close> and \<open>handle_ajax\<close> leave the history as it is. So a history without
  duplicates has none after any sequence of calls.
\<close>

theorem student_view_extends_history:
  "history (snd (student_view rt self)) =
     (case child self of
        None \<Rightarrow> history self
      | Some ch \<Rightarrow>
          if url (location ch) \<in> set (history self) then history self
          else history self @ [url (location ch)])
   \<and> (distinct (history self) \<longrightarrow> distinct (history (foldl call_method self calls)))
   \<and> history (snd (init gc rnd self)) = history self
   \<and> history (snd (pick_choice gc rnd self ur nr sus)) = history self
   \<and> history (snd (handle_ajax self dispatch data)) = history self"
  using history_student_view [of rt self] distinct_history_calls [of self calls]
  by (simp add: history_init history_pick_choice history_handle_ajax)

theorem student_view_extends_history_witness:
  "distinct (history (example_module\<lparr>child := Some (example_block ''u2'' ''p2'')\<rparr>))
   \<and> history (snd (student_view (\<lambda>t c. [])
        (example_module\<lparr>child := Some (example_block ''u2'' ''p2'')\<rparr>))) = [''u2'']
   \<and> distinct (history (foldl call_method
        (example_module\<lparr>child := Some (example_block ''u2'' ''p2'')\<rparr>)
        [StudentView (\<lambda>t c. []), HandleAjax ''next'' Map.empty, StudentView (\<lambda>t c. [])]))"
proof -
  let ?m = "example_module\<lparr>child := Some (example_block ''u2'' ''p2'')\<rparr>"
  let ?calls = "[StudentView (\<lambda>t c. []), HandleAjax ''next'' Map.empty, StudentView (\<lambda>t c. [])]"
  note t = student_view_extends_history [where self = ?m and rt = "\<lambda>t c. []" and calls = ?calls]
  have d: "distinct (history ?m)"
    by (simp add: example_module_def)
  from t d have "distinct (history (foldl call_method ?m ?calls))"
    by blast
  moreover from t have "history (snd (student_view (\<lambda>t c. []) ?m)) = [''u2'']"
    by (simp add: example_module_def example_block_def)
  ultimately show ?thesis
    using d by blast
qed
section \<open>handle\_ajax\<close>

lemma index_Inr_iff: "(\<exists>i. index xs x = Inr i) \<longleftrightarrow> x \<in> set xs"
  by (induction xs) (auto split: sum.splits)

lemma index_Inl: "index xs x = Inl e \<Longrightarrow> e = ValueError \<and> x \<notin> set xs"
  by (induction xs arbitrary: e) (auto split: sum.splits if_splits)

lemma index_nth: "index xs x = Inr i \<Longrightarrow> i < length xs \<and> xs ! i = x"
  by (induction xs arbitrary: i) (auto split: sum.splits if_splits)

lemma get_choice_index_all_keys:
  "get_choice_index self None (Some (keys (get_choices self False None))) =
     (case choice self of None \<Rightarrow> Inl ValueError
      | Some k \<Rightarrow> index (keys (get_choices self False None)) k)"
  by (cases "keys (get_choices self False None)")
    (simp_all add: get_choice_index_def Let_def split: option.splits)

lemma handle_ajax_not_staff:
  "\<not> user_is_staff self \<Longrightarrow>
     handle_ajax self dispatch data =
       (Returned (Dumps [(''ret'', format_choice (choice self))]), self)"
  by (simp add: handle_ajax_def)

lemma handle_ajax_returned:
  "fst (handle_ajax self dispatch data) = Returned j \<Longrightarrow>
     j = Dumps [(''ret'', format_choice (choice (snd (handle_ajax self dispatch data))))]"
  by (auto simp: handle_ajax_def Let_def split: if_splits sum.splits option.splits)

lemma handle_ajax_raised:
  "fst (handle_ajax self dispatch data) = Raised e \<Longrightarrow>
     snd (handle_ajax self dispatch data) = self \<and> user_is_staff self
     \<and> (e = ValueError \<and> choice self \<notin> Some ` set (keys (get_choices self False None))
        \<or> e = KeyError \<and> dispatch = ''jump'' \<and> data ''choice'' = None)"
  by (auto simp: handle_ajax_def Let_def get_choice_index_all_keys
      dest!: index_Inl split: if_splits sum.splits option.splits)

lemma handle_ajax_changed:
  "choice (snd (handle_ajax self dispatch data)) \<noteq> choice self \<Longrightarrow>
     user_is_staff self
     \<and> (\<exists>i k. get_choice_index self None (Some (keys (get_choices self False None))) = Inr i
          \<and> choice (snd (handle_ajax self dispatch data)) = Some k
          \<and> (dispatch = ''next''
                \<and> getitem (keys (get_choices self False None)) (int i + 1) = Inr k
              \<or> dispatch = ''jump''
                \<and> (\<exists>s j. data ''choice'' = Some s \<and> py_int s = Some j
                      \<and> getitem (keys (get_choices self False None)) j = Inr k)))"
  by (auto simp: handle_ajax_def Let_def split: if_splits sum.splits option.splits)

lemma handle_ajax_returns_iff:
  "(\<exists>j. fst (handle_ajax self dispatch data) = Returned j) \<longleftrightarrow>
     (\<not> user_is_staff self
      \<or> choice self \<in> Some ` set (keys (get_choices self False None))
        \<and> (dispatch = ''jump'' \<longrightarrow> data ''choice'' \<noteq> None))"
proof (cases "choice self")
  case None
  then show ?thesis
    by (auto simp: handle_ajax_def Let_def get_choice_index_all_keys)
next
  case (Some k)
  show ?thesis
  proof (cases "index (keys (get_choices self False None)) k")
    case (Inl e)
    with Some index_Inl [OF Inl] show ?thesis
      by (auto simp: handle_ajax_def Let_def get_choice_index_all_keys)
  next
    case (Inr i)
    with index_nth [OF Inr] have "k \<in> set (keys (get_choices self False None))"
      by (metis nth_mem)
    with Some Inr show ?thesis
      by (auto simp: handle_ajax_def Let_def get_choice_index_all_keys
          split: sum.splits option.splits)
  qed
qed

lemma getitem_Inr: "getitem xs i = Inr x \<Longrightarrow> x \<in> set xs \<and> - int (length xs) \<le> i \<and> i < int (length xs)"
  by (auto simp: getitem_def split: if_splits)

lemma handle_ajax_other_dispatch:
  "dispatch \<noteq> ''next'' \<Longrightarrow> dispatch \<noteq> ''jump'' \<Longrightarrow> snd (handle_ajax self dispatch data) = self"
  by (simp add: handle_ajax_def Let_def split: sum.splits)

lemma handle_ajax_caught:
  assumes "user_is_staff self"
    and "get_choice_index self None (Some (keys (get_choices self False None))) = Inr i"
    and "dispatch = ''next'' \<and> getitem (keys (get_choices self False None)) (int i + 1) = Inl e
         \<or> dispatch = ''jump'' \<and> data ''choice'' = Some s
           \<and> (py_int s = None
               \<or> (\<exists>j. py_int s = Some j
                     \<and> getitem (keys (get_choices self False None)) j = Inl e))"
  shows "handle_ajax self dispatch data =
           (Returned (Dumps [(''ret'', format_choice (choice self))]), self)"
  using assms by (auto simp: handle_ajax_def Let_def)

text \<open>
  C10, as the code has it: \<open>handle_ajax\<close> changes the stored choice only for a staff user,
  when the index of the stored choice among all keys is found and either the dispatch is
  \<open>next\<close> and there is a key at the next index, or the dispatch is \<open>jump\<close> and
  \<open>data['choice']\<close> parses to an integer that indexes the keys (a negative one counts from
  the end); the new choice is that key. For a user who is not staff, for any other
  dispatch, and after a caught IndexError or ValueError the object is unchanged and the
  call returns the stored choice. Whenever the call returns, it returns the JSON object
  whose \<open>ret\<close> is \<open>choice=\<close> followed by the choice stored after the call. It returns
  exactly when the user is not staff, or the stored choice is a key of \<open>get_choices()\<close>
  and, for \<open>jump\<close>, \<open>data\<close> has an entry \<open>choice\<close>. Otherwise it raises, ValueError or
  KeyError, and leaves the object unchanged.
\<close>

theorem handle_ajax_changes_choice:
  "(choice (snd (handle_ajax self dispatch data)) \<noteq> choice self \<longrightarrow>
      user_is_staff self
      \<and> (\<exists>i k. get_choice_index self None (Some (keys (get_choices self False None))) = Inr i
           \<and> choice (snd (handle_ajax self dispatch data)) = Some k
           \<and> (dispatch = ''next''
                 \<and> getitem (keys (get_choices self False None)) (int i + 1) = Inr k
               \<or> dispatch = ''jump''
                 \<and> (\<exists>s j. data ''choice'' = Some s \<and> py_int s = Some j
                       \<and> getitem (keys (get_choices self False None)) j = Inr k))))
   \<and> (\<not> user_is_staff self \<longrightarrow>
         handle_ajax self dispatch data =
           (Returned (Dumps [(''ret'', format_choice (choice self))]), self))
   \<and> (dispatch \<noteq> ''next'' \<and> dispatch \<noteq> ''jump'' \<longrightarrow>
         snd (handle_ajax self dispatch data) = self)
   \<and> (\<forall>i e s. user_is_staff self
         \<and> get_choice_index self None (Some (keys (get_choices self False None))) = Inr i
         \<and> (dispatch = ''next''
               \<and> getitem (keys (get_choices self False None)) (int i + 1) = Inl e
             \<or> dispatch = ''jump'' \<and> data ''choice'' = Some s
               \<and> (py_int s = None
                   \<or> (\<exists>j. py_int s = Some j
                         \<and> getitem (keys (get_choices self False None)) j = Inl e))) \<longrightarrow>
         handle_ajax self dispatch data =
           (Returned (Dumps [(''ret'', format_choice (choice self))]), self))
   \<and> (\<forall>j. fst (handle_ajax self dispatch data) = Returned j \<longrightarrow>
         j = Dumps [(''ret'', format_choice (choice (snd (handle_ajax self dispatch data))))])
   \<and> ((\<exists>j. fst (handle_ajax self dispatch data) = Returned j) \<longleftrightarrow>
         (\<not> user_is_staff self
          \<or> choice self \<in> Some ` set (keys (get_choices self False None))
            \<and> (dispatch = ''jump'' \<longrightarrow> data ''choice'' \<noteq> None)))
   \<and> (\<forall>e. fst (handle_ajax self dispatch data) = Raised e \<longrightarrow>
         snd (handle_ajax self dispatch data) = self \<and> (e = ValueError \<or> e = KeyError))"
proof -
  have raised: "snd (handle_ajax self dispatch data) = self \<and> (e = ValueError \<or> e = KeyError)"
    if "fst (handle_ajax self dispatch data) = Raised e" for e
    using handle_ajax_raised [OF that] by blast
  have caught: "handle_ajax self dispatch data =
           (Returned (Dumps [(''ret'', format_choice (choice self))]), self)"
    if "user_is_staff self
         \<and> get_choice_index self None (Some (keys (get_choices self False None))) = Inr i
         \<and> (dispatch = ''next''
               \<and> getitem (keys (get_choices self False None)) (int i + 1) = Inl e
             \<or> dispatch = ''jump'' \<and> data ''choice'' = Some s
               \<and> (py_int s = None
                   \<or> (\<exists>j. py_int s = Some j
                         \<and> getitem (keys (get_choices self False None)) j = Inl e)))" for i e s
    using that handle_ajax_caught [of self i dispatch e data s] by blast
  show ?thesis
    apply (intro conjI impI allI)
    subgoal using handle_ajax_changed [of self dispatch data] by blast
    subgoal using handle_ajax_changed [of self dispatch data] by blast
    subgoal by (simp add: handle_ajax_not_staff)
    subgoal by (simp add: handle_ajax_other_dispatch)
    subgoal for i e s using caught [of i e s] by blast
    subgoal for j by (rule handle_ajax_returned)
    subgoal by (rule handle_ajax_returns_iff)
    subgoal for e using raised [of e] by blast
    subgoal for e using raised [of e] by blast
    done
qed

theorem handle_ajax_changes_choice_witness:
  "user_is_staff (example_module\<lparr>choice := Some ''u2''\<rparr>)
   \<and> handle_ajax (example_module\<lparr>choice := Some ''u2''\<rparr>) ''next'' Map.empty =
       (Returned (Dumps [(''ret'', ''choice=u3'')]), example_module\<lparr>choice := Some ''u3''\<rparr>)
   \<and> get_choice_index (example_module\<lparr>choice := Some ''u2''\<rparr>) None
         (Some (keys (get_choices (example_module\<lparr>choice := Some ''u2''\<rparr>) False None))) = Inr 1
   \<and> getitem (keys (get_choices (example_module\<lparr>choice := Some ''u2''\<rparr>) False None)) 2 =
       Inr ''u3''"
proof -
  let ?m = "example_module\<lparr>choice := Some ''u2''\<rparr>"
  have k: "keys (get_choices ?m False None) = [''u1'', ''u2'', ''u3'']"
    by (simp add: example_module_def example_block_def get_choices_def OrderedDict_def keys_def)
  have s: "user_is_staff ?m" "choice ?m = Some ''u2''"
    by (simp_all add: example_module_def)
  have i: "get_choice_index ?m None (Some (keys (get_choices ?m False None))) = Inr 1"
    by (simp add: k s get_choice_index_def)
  have g: "getitem (keys (get_choices ?m False None)) 2 = Inr ''u3''"
    by (simp add: k getitem_def)
  have h: "handle_ajax ?m ''next'' Map.empty =
       (Returned (Dumps [(''ret'', ''choice=u3'')]), example_module\<lparr>choice := Some ''u3''\<rparr>)"
    using i g s by (simp add: handle_ajax_def Let_def format_choice_def)
  have "choice (snd (handle_ajax ?m ''next'' Map.empty)) \<noteq> choice ?m"
    by (simp add: h s)
  with handle_ajax_changes_choice [of ?m "''next''" Map.empty]
  have "user_is_staff ?m" by blast
  with h i g show ?thesis by simp
qed

lemma handle_ajax_no_choice:
  "user_is_staff self \<Longrightarrow> choice self = None \<Longrightarrow>
     handle_ajax self dispatch data = (Raised ValueError, self)"
  by (simp add: handle_ajax_def Let_def get_choice_index_all_keys)

lemma user_is_staff_pick_choice:
  "user_is_staff (snd (pick_choice gc rnd self ur nr sus)) = user_is_staff self"
  by (simp add: pick_choice_unfold pick_choice_load_def pick_choice_select_def Let_def
      split: option.splits sum.splits)

lemma get_choices_no_children: "descriptor_children self = [] \<Longrightarrow> get_choices self nr sus = []"
  by (simp add: get_choices_def OrderedDict_def split: option.splits list.splits)

lemma init_pick_choice:
  assumes "xml_attributes self \<noteq> []"
  shows "\<exists>m2. init gc rnd self =
              pick_choice gc rnd m2 (use_randrange m2) (no_repeats m2) (suspended m2)
            \<and> choice m2 = choice self \<and> history m2 = history self
            \<and> descriptor_children m2 = descriptor_children self
            \<and> user_is_staff m2 = user_is_staff self"
proof (cases "xml_attributes self")
  case Nil
  with assms show ?thesis by simp
next
  case (Cons a as)
  let ?m2 = "self\<lparr>use_randrange := str_to_bool (attrs_get (a # as) ''use_randrange'' ''''),
                   no_repeats := str_to_bool (attrs_get (a # as) ''no_repeats'' '''')\<rparr>"
  have "init gc rnd self =
          pick_choice gc rnd ?m2 (use_randrange ?m2) (no_repeats ?m2) (suspended ?m2)"
    by (simp add: init_def Cons Let_def)
  then show ?thesis
    by (intro exI [of _ ?m2]) simp
qed

text \<open>A module with no children, built by \<open>__init__\<close>, has no stored choice; a request
  of a staff user then raises ValueError and returns nothing.\<close>

theorem handle_ajax_raises_for_staff:
  "fst (handle_ajax
          (snd (init get_child_descriptors 0 (example_module\<lparr>descriptor_children := []\<rparr>)))
          ''next'' Map.empty) = Raised ValueError"
proof -
  let ?m = "example_module\<lparr>descriptor_children := []\<rparr>"
  have "xml_attributes ?m \<noteq> []" by (simp add: example_module_def)
  from init_pick_choice [OF this, of get_child_descriptors 0]
  obtain m2 where i: "init get_child_descriptors 0 ?m =
      pick_choice get_child_descriptors 0 m2 (use_randrange m2) (no_repeats m2) (suspended m2)"
    and q: "choice m2 = choice ?m" "history m2 = history ?m"
      "descriptor_children m2 = descriptor_children ?m" "user_is_staff m2 = user_is_staff ?m"
    by blast
  from q have p: "choice m2 = None" "history m2 = []" "descriptor_children m2 = []"
      "user_is_staff m2"
    by (simp_all add: example_module_def)
  have l: "len (get_choices m2 (no_repeats m2) (suspended m2)) = 0"
    by (simp add: get_choices_no_children [OF p(3)] len_def)
  have "choice (snd (init get_child_descriptors 0 ?m)) = None"
    using p(1,2) l
    by (simp add: i pick_choice_unfold choice_pick_choice_load pick_choice_select_none_left)
  moreover have "user_is_staff (snd (init get_child_descriptors 0 ?m))"
    by (simp add: i user_is_staff_pick_choice p(4))
  ultimately show ?thesis
    by (simp add: handle_ajax_no_choice)
qed
section \<open>coerce\_types\<close>














section \<open>serialize\_course\<close>

lemma make_node_None: "make_node n item = None \<longleftrightarrow> make_node 0 item = None"
  by (simp add: make_node_def split: option.splits prod.splits)

lemma create_nodes_None:
  "create_nodes items acc d = None \<longleftrightarrow> (\<exists>item \<in> set items. make_node 0 item = None)"
proof (induction items arbitrary: acc d)
  case Nil
  then show ?case by simp
next
  case (Cons item items)
  show ?case
    using make_node_None [of "length acc" item]
    by (cases "make_node (length acc) item") (auto simp: Cons.IH)
qed

lemma create_nodes_Some:
  "create_nodes items acc d = Some (nodes, l2n) \<Longrightarrow>
     \<exists>ns. nodes = acc @ ns \<and> length ns = length items
       \<and> (\<forall>i < length items. make_node (length acc + i) (items ! i) = Some (ns ! i))
       \<and> l2n = build d (zip (map item_location items) ns)"
proof (induction items arbitrary: acc d)
  case Nil
  then show ?case by (simp add: build_simps)
next
  case (Cons item items)
  from Cons.prems obtain node where n: "make_node (length acc) item = Some node"
    and r: "create_nodes items (acc @ [node]) (setitem d (item_location item) node) = Some (nodes, l2n)"
    by (auto split: option.splits)
  from Cons.IH [OF r] obtain ns where ns: "nodes = (acc @ [node]) @ ns" "length ns = length items"
    "\<forall>i < length items. make_node (length (acc @ [node]) + i) (items ! i) = Some (ns ! i)"
    "l2n = build (setitem d (item_location item) node) (zip (map item_location items) ns)"
    by blast
  have "\<forall>i < length (item # items). make_node (length acc + i) ((item # items) ! i) = Some ((node # ns) ! i)"
  proof (intro allI impI)
    fix i assume "i < length (item # items)"
    then show "make_node (length acc + i) ((item # items) ! i) = Some ((node # ns) ! i)"
      using n ns(3) by (cases i) auto
  qed
  with ns show ?case
    by (intro exI [of _ "node # ns"]) (simp add: build_simps)
qed

lemma node_for_build:
  "length nodes = length items \<Longrightarrow>
     map_of (build [] (zip (map item_location items) nodes)) loc = node_for items nodes loc"
  by (simp add: map_of_build node_for_def)

lemma node_for_Some:
  assumes "length nodes = length items"
  shows "node_for items nodes loc \<noteq> None \<longleftrightarrow> loc \<in> set (map item_location items)"
proof -
  have "map fst (zip (map item_location items) nodes) = map item_location items"
    using assms by simp
  then have "fst ` set (zip (map item_location items) nodes) = set (map item_location items)"
    by (metis set_map)
  then have "dom (map_of (rev (zip (map item_location items) nodes))) =
      set (map item_location items)"
    by (simp add: dom_map_of_conv_image_fst)
  then show ?thesis by (auto simp: node_for_def)
qed

lemma create_relationships_eq:
  assumes "length nodes = length items"
  shows "create_relationships items (build [] (zip (map item_location items) nodes)) =
           concat (map (\<lambda>item. concat (map (parent_of items nodes item) (item_children item))) items)"
proof -
  have "(case (node_for items nodes (item_location item), node_for items nodes child_loc) of
            (Some parent_node, Some child_node) \<Rightarrow>
              [\<lparr>start_node = parent_node, rel_type = ''PARENT_OF'', end_node = child_node\<rparr>]
          | _ \<Rightarrow> []) = parent_of items nodes item child_loc"
    if "item \<in> set items" for item child_loc
  proof -
    from that have "item_location item \<in> set (map item_location items)" by simp
    then have "node_for items nodes (item_location item) \<noteq> None"
      by (simp only: node_for_Some [OF assms])
    then show ?thesis
      using node_for_Some [OF assms, of child_loc]
      by (auto simp: parent_of_def split: option.splits)
  qed
  then show ?thesis
    unfolding create_relationships_def
    by (auto simp: node_for_build [OF assms] intro!: arg_cong [where f = concat] map_cong)
qed

lemma serialize_course_None:
  "serialize_course ms cid = None \<longleftrightarrow> (\<exists>item \<in> set (get_items ms cid). make_node 0 item = None)"
  using create_nodes_None [of "get_items ms cid" "[]" "[]"]
  by (auto simp: serialize_course_def Let_def split: option.splits)

lemma serialize_course_Some:
  assumes "serialize_course ms cid = Some (nodes, rels)"
  shows "length nodes = length (get_items ms cid)
    \<and> (\<forall>i < length (get_items ms cid). make_node i (get_items ms cid ! i) = Some (nodes ! i))
    \<and> rels = concat (map (\<lambda>item. concat (map (parent_of (get_items ms cid) nodes item)
                                             (item_children item))) (get_items ms cid))"
proof -
  from assms obtain l2n where c: "create_nodes (get_items ms cid) [] [] = Some (nodes, l2n)"
    and r: "rels = create_relationships (get_items ms cid) l2n"
    by (auto simp: serialize_course_def Let_def split: option.splits)
  from create_nodes_Some [OF c] have n: "length nodes = length (get_items ms cid)"
    "\<forall>i < length (get_items ms cid). make_node i (get_items ms cid ! i) = Some (nodes ! i)"
    "l2n = build [] (zip (map item_location (get_items ms cid)) nodes)"
    by auto
  show ?thesis
    using n r create_relationships_eq [OF n(1)] by simp
qed






lemma example_items:
  "get_items example_modulestore (example_course_key ''2016'') =
     [example_item ''course'' ''a'' [''b'', ''z'']
        [(''children'', PList [AStr ''b'', AStr ''z'']), (''weight'', Atom (AInt 3))],
      example_item ''problem'' ''b'' [] [(''tags'', PTuple [AInt 1, ABool True])]]"
  by (simp add: example_modulestore_def)

lemma example_make_node:
  "make_node n (example_item ''course'' ''a'' [''b'', ''z'']
        [(''children'', PList [AStr ''b'', AStr ''z'']), (''weight'', Atom (AInt 3))]) \<noteq> None"
  "make_node n (example_item ''problem'' ''b'' [] [(''tags'', PTuple [AInt 1, ABool True])]) \<noteq> None"
  by (simp_all add: make_node_def serialize_item_def example_item_def example_course_key_def
      OrderedDict_def keys_def delitem_def coerce_types_def int_text_def nat_text.simps Let_def)



section \<open>The command\<close>

lemma committed_record_event [simp]: "committed (record_event e g) = committed g"
  and pending_record_event [simp]: "pending (record_event e g) = pending g"
  and events_record_event [simp]: "events (record_event e g) = events g @ [e]"
  by (simp_all add: record_event_def)

lemma add_to_transaction_eq:
  "add_to_transaction raises es g =
     (if list_ex raises es
      then (False, g\<lparr>pending := pending g @ takeWhile (\<lambda>e. \<not> raises e) es,
                     events := events g @ map Create (takeWhile (\<lambda>e. \<not> raises e) es)
                                 @ [Create (hd (dropWhile (\<lambda>e. \<not> raises e) es))]\<rparr>)
      else (True, g\<lparr>pending := pending g @ es, events := events g @ map Create es\<rparr>))"
proof (induction es arbitrary: g)
  case Nil
  then show ?case by simp
next
  case (Cons e es)
  show ?case
    by (cases "raises e") (simp_all add: transaction_create_def Cons.IH record_event_def)
qed

lemma committed_add_to_transaction:
  "committed (snd (add_to_transaction raises es g)) = committed g"
  by (simp add: add_to_transaction_eq)

lemma write_course_committed:
  "committed (write_course cr cm nodes rels (graph_begin g)) =
     (if list_ex cr (map N nodes @ map R rels) \<or> cm then committed g
      else committed g @ map N nodes @ map R rels)"
  by (simp add: write_course_def add_to_transaction_eq transaction_commit_def
      transaction_rollback_def graph_begin_def)

lemma write_course_pending: "pending (write_course cr cm nodes rels (graph_begin g)) = []"
  by (simp add: write_course_def add_to_transaction_eq transaction_commit_def
      transaction_rollback_def graph_begin_def)

lemma write_course_events:
  "\<exists>es. events (write_course cr cm nodes rels (graph_begin g)) = events g @ Begin # es
     \<and> DeleteAll \<notin> set es \<and> Begin \<notin> set es
     \<and> last (Begin # es) = (if list_ex cr (map N nodes @ map R rels) \<or> cm then Rollback else Commit)"
  by (simp add: write_course_def add_to_transaction_eq transaction_commit_def
      transaction_rollback_def graph_begin_def image_iff)


lemma handle_courses_next:
  assumes "serialize_course ms (course_id c) = Some (nodes, rels)"
  shows "handle_courses ms cr cm (c # cs) g =
     handle_courses ms cr cm cs
       (write_course (cr (course_id c)) (cm (course_id c)) nodes rels
          (graph_begin (record_event (SerializeCourse (course_id c))
             (record_event ClearRequestCache g))))"
  using assms by (simp add: Let_def)

lemma handle_courses_stops:
  assumes "serialize_course ms (course_id c) = None"
  shows "handle_courses ms cr cm (c # cs) g =
     (False, record_event (SerializeCourse (course_id c)) (record_event ClearRequestCache g))"
  using assms by (simp add: Let_def)

lemma handle_courses_finishes:
  "fst (handle_courses ms cr cm cs g) = list_all (serializes ms) cs"
proof (induction cs arbitrary: g)
  case Nil
  then show ?case by simp
next
  case (Cons c cs)
  show ?case
  proof (cases "serialize_course ms (course_id c)")
    case None
    then show ?thesis by (simp add: handle_courses_stops serializes_def)
  next
    case (Some p)
    obtain nodes rels where "p = (nodes, rels)" by (cases p)
    with Some show ?thesis
      by (simp add: handle_courses_next Cons.IH serializes_def)
  qed
qed

lemma handle_courses_committed:
  "committed (snd (handle_courses ms cr cm cs g)) =
     committed g @ concat (map (written ms cr cm) (takeWhile (serializes ms) cs))"
proof (induction cs arbitrary: g)
  case Nil
  then show ?case by simp
next
  case (Cons c cs)
  show ?case
  proof (cases "serialize_course ms (course_id c)")
    case None
    then show ?thesis by (simp add: handle_courses_stops serializes_def)
  next
    case (Some p)
    obtain nodes rels where "p = (nodes, rels)" by (cases p)
    with Some show ?thesis
      by (simp add: handle_courses_next Cons.IH serializes_def write_course_committed
          written_def)
  qed
qed


text \<open>
  C2: for one course, what \<open>handle\<close> does after \<open>graph.begin()\<close> leaves in the database
  the entities it held before and, when no \<open>create\<close> and no \<open>commit\<close> raises, the
  nodes and relationships of the course after them; when one raises, the database holds
  what it held before. The calls of a course form one transaction: one \<open>begin\<close>, ended
  by \<open>commit\<close> when nothing raises and by \<open>rollback\<close> when something does. After the
  course, whether written or rolled back, the loop goes on with the next course. So the
  command ends normally exactly when every course serializes, and the database then
  holds, course by course, the entities of the courses whose transaction did not raise.
\<close>

theorem handle_writes_each_course_in_a_transaction:
  "committed (write_course cr' cm' nodes rels (graph_begin g)) =
     (if list_ex cr' (map N nodes @ map R rels) \<or> cm' then committed g
      else committed g @ map N nodes @ map R rels)
   \<and> (\<exists>es. events (write_course cr' cm' nodes rels (graph_begin g)) = events g @ Begin # es
          \<and> Begin \<notin> set es
          \<and> last (Begin # es) =
              (if list_ex cr' (map N nodes @ map R rels) \<or> cm' then Rollback else Commit))
   \<and> fst (handle ms cr cm g) = list_all (serializes ms) (get_course_summaries ms)
   \<and> committed (snd (handle ms cr cm g)) =
       concat (map (written ms cr cm) (takeWhile (serializes ms) (get_course_summaries ms)))"
proof (intro conjI)
  show "committed (write_course cr' cm' nodes rels (graph_begin g)) =
     (if list_ex cr' (map N nodes @ map R rels) \<or> cm' then committed g
      else committed g @ map N nodes @ map R rels)"
    by (rule write_course_committed)
  show "\<exists>es. events (write_course cr' cm' nodes rels (graph_begin g)) = events g @ Begin # es
          \<and> Begin \<notin> set es
          \<and> last (Begin # es) =
              (if list_ex cr' (map N nodes @ map R rels) \<or> cm' then Rollback else Commit)"
    using write_course_events [of cr' cm' nodes rels g] by blast
  show "fst (handle ms cr cm g) = list_all (serializes ms) (get_course_summaries ms)"
    by (simp add: handle_def handle_courses_finishes)
  show "committed (snd (handle ms cr cm g)) =
       concat (map (written ms cr cm) (takeWhile (serializes ms) (get_course_summaries ms)))"
    by (simp add: handle_def handle_courses_committed graph_delete_all_def)
qed

lemma example_course_2017:
  "\<exists>node. serialize_course example_modulestore (example_course_key ''2017'') = Some ([node], [])"
proof -
  let ?ms = example_modulestore and ?k = "example_course_key ''2017''"
  have i: "get_items ?ms ?k = [example_item ''problem'' ''d'' [] [(''weight'', Atom (AInt 1))]]"
    by (simp add: example_modulestore_def example_course_key_def)
  have "make_node 0 (example_item ''problem'' ''d'' [] [(''weight'', Atom (AInt 1))]) \<noteq> None"
    by (simp add: make_node_def serialize_item_def example_item_def example_course_key_def
      OrderedDict_def keys_def delitem_def coerce_types_def int_text_def nat_text.simps Let_def)
  then have "serialize_course ?ms ?k \<noteq> None"
    by (simp add: serialize_course_None i)
  then obtain nodes rels where s: "serialize_course ?ms ?k = Some (nodes, rels)"
    by auto
  from serialize_course_Some [OF s] have "length nodes = 1" "rels = []"
    by (simp_all add: i example_item_def)
  then obtain node where "nodes = [node]"
    by (cases nodes) auto
  with s \<open>rels = []\<close> show ?thesis by blast
qed

lemma example_course_2016:
  "serialize_course example_modulestore (example_course_key ''2016'') \<noteq> None"
  using example_make_node [of 0] by (simp add: serialize_course_None example_items)

theorem handle_writes_each_course_in_a_transaction_witness:
  "fst (handle example_modulestore (\<lambda>k e. False) (\<lambda>k. k = example_course_key ''2016'')
          empty_graph)
   \<and> committed (snd (handle example_modulestore (\<lambda>k e. False)
          (\<lambda>k. k = example_course_key ''2016'') empty_graph)) =
       map N (fst (the (serialize_course example_modulestore (example_course_key ''2017''))))
   \<and> length (committed (snd (handle example_modulestore (\<lambda>k e. False)
          (\<lambda>k. k = example_course_key ''2016'') empty_graph))) = 1"
proof -
  let ?ms = example_modulestore and ?cr = "\<lambda>(k :: course_key) (e :: entity). False"
    and ?cm = "\<lambda>k. k = example_course_key ''2016''"
  obtain node where n: "serialize_course ?ms (example_course_key ''2017'') = Some ([node], [])"
    using example_course_2017 by blast
  have c: "get_course_summaries ?ms =
      [\<lparr>course_id = example_course_key ''2016''\<rparr>, \<lparr>course_id = example_course_key ''2017''\<rparr>]"
    by (simp add: example_modulestore_def)
  have s: "serializes ?ms \<lparr>course_id = example_course_key ''2016''\<rparr>"
    "serializes ?ms \<lparr>course_id = example_course_key ''2017''\<rparr>"
    using example_course_2016 n by (simp_all add: serializes_def)
  have w: "written ?ms ?cr ?cm \<lparr>course_id = example_course_key ''2016''\<rparr> = []"
    using example_course_2016 by (auto simp: written_def split: option.splits)
  have d: "example_course_key ''2017'' \<noteq> example_course_key ''2016''"
    by (simp add: example_course_key_def)
  have v: "written ?ms ?cr ?cm \<lparr>course_id = example_course_key ''2017''\<rparr> = [N node]"
    using n d by (simp add: written_def list_ex_iff)
  note t = handle_writes_each_course_in_a_transaction
    [where ms = ?ms and cr = ?cr and cm = ?cm and g = empty_graph]
  from t have "fst (handle ?ms ?cr ?cm empty_graph)
      = list_all (serializes ?ms) (get_course_summaries ?ms)"
    by blast
  moreover from t have "committed (snd (handle ?ms ?cr ?cm empty_graph)) =
       concat (map (written ?ms ?cr ?cm) (takeWhile (serializes ?ms) (get_course_summaries ?ms)))"
    by blast
  ultimately show ?thesis
    by (simp add: c s w v n)
qed



end
